theory Spec2Isabelle
  imports Complex_Main "HOL-Library.Word"
begin

unbundle bit_operations_syntax

section \<open>KeyMapper: the binding registry and interception state machine\<close>

text \<open>
  A shallow embedding of the non-GUI part of \<^verbatim>\<open>KeyMapper.py\<close>: the table of controls and
  their bindings, the list of axes in use, the devices in use, and the rebinding dialogue
  (interception, conflict check, resolution, saving and loading).

  Python objects that are mutated in place (\<^verbatim>\<open>KeyBinding\<close>, \<^verbatim>\<open>AxisData\<close>) are records held in
  the containers of the manager; each is reachable through one container only, so updating
  the container entry is the mutation. Dictionaries are association lists in insertion order
  (the order in which Python iterates them). Exceptions are values of type \<open>error\<close>;
  a function that may raise returns \<open>error + 'a\<close>. Python floats (axis values, dead zones)
  are idealised as reals.
\<close>

subsection \<open>Strings\<close>

definition lower_char :: "char \<Rightarrow> char" where
  "lower_char c =
     (if (65::nat) \<le> of_char c \<and> of_char c \<le> (90::nat) then char_of (of_char c + (32::nat)) else c)"

text \<open>\<^verbatim>\<open>str.lower\<close> on the ASCII letters.\<close>
definition lower :: "string \<Rightarrow> string" where
  "lower s = map lower_char s"

definition startswith :: "string \<Rightarrow> string \<Rightarrow> bool" where
  "startswith s p = (take (length p) s = p)"

text \<open>\<^verbatim>\<open>sub in s\<close> for strings.\<close>
fun contains :: "string \<Rightarrow> string \<Rightarrow> bool" where
  "contains [] sub = (sub = [])"
| "contains (c # s) sub = (startswith (c # s) sub \<or> contains s sub)"

text \<open>\<^verbatim>\<open>s.split(".")\<close>: the accumulator holds the part being read, reversed.\<close>
fun split_dot :: "string \<Rightarrow> string \<Rightarrow> string list" where
  "split_dot acc [] = [rev acc]"
| "split_dot acc (c # s) = (if c = CHR ''.'' then rev acc # split_dot [] s else split_dot (c # acc) s)"

text \<open>\<^verbatim>\<open>binding.lower().startswith("axis.")\<close>\<close>
definition is_axis :: "string \<Rightarrow> bool" where
  "is_axis binding = startswith (lower binding) ''axis.''"

subsection \<open>Data\<close>

datatype KeyType =
    KEYMAP_EVENT_RELEASED
  | KEYMAP_EVENT_PRESSED
  | KEYMAP_EVENT_PRESSED_AND_RELEASED
  | KEYMAP_HELD_KEY

text \<open>
  A user callback is an opaque function of the application, known by an identifier.
  The \<^verbatim>\<open>callback\<close> argument is \<^verbatim>\<open>None\<close>, one callable, or a list or tuple whose elements
  are callables or \<^verbatim>\<open>None\<close>.
\<close>
datatype Callback =
    NoCallback
  | Single nat
  | CallbackList "nat option list"

datatype error =
    KeyError string
  | AttributeError string
  | TypeError string
  | IndexError string
  | AssertionError string
  | Exception string

text \<open>What \<^verbatim>\<open>eventObject.accept\<close> registers for an event name: the method and its extra arguments.\<close>
datatype Handler =
    KeyPressed string int
  | UserCallback Callback string
  | UserCallbackEvent Callback string KeyType

text \<open>A call of a user callback: \<^verbatim>\<open>f(description)\<close>, \<^verbatim>\<open>f(description, eventType)\<close>, or the key-state
  callback \<^verbatim>\<open>f(description, value)\<close>.\<close>
datatype Call =
    Call nat string
  | CallEvent nat string KeyType
  | CallState nat string real

record KeyBinding =
  keyDescription :: "string option"
  binding :: "string option"
  defaultBinding :: "string option"
  keyType :: KeyType
  callback :: Callback
  deviceType :: "string option"
  defaultDeviceType :: "string option"
  axisDirection :: int
  groupID :: "32 word"

text \<open>
  An input device of the engine: its name and the name of its member of
  \<^verbatim>\<open>InputDevice.DeviceClass\<close>.
\<close>
record Device =
  device_name :: string
  device_class :: string

record AxisData =
  axis :: string
  keyDescriptionPositive :: "string option"
  keyDescriptionNegative :: "string option"
  deadZone :: real
  deviceTypePositive :: "string option"
  deviceTypeNegative :: "string option"
  devicePositive :: "Device option"
  deviceNegative :: "Device option"

type_synonym KeySaveData = "(string \<times> string option \<times> string option \<times> int) list"
type_synonym AxisSaveData = "(string \<times> real) list"

text \<open>What the application's callbacks keep between a save and a load: for a file name, the
  data written under it.\<close>
type_synonym Storage = "(string \<times> KeySaveData \<times> AxisSaveData) list"

text \<open>
  The manager. Besides the attributes of the class, the record holds what the methods read
  from the engine: the connected devices (\<^verbatim>\<open>base.devices\<close>), the axes each device reports
  this frame with their values (\<^verbatim>\<open>device.axes\<close>, an axis known by the name of its member of
  \<^verbatim>\<open>InputDevice.Axis\<close>), the files that exist (\<^verbatim>\<open>vfs.exists\<close>), the visibility of the three
  dialogues, and the log of the user callbacks that have been called. The save and the load
  callback are functions of the application that write and read outside the manager: the
  record holds that storage, the save callback returns the message of the \<^verbatim>\<open>IOError\<close> it
  raises or the storage as it leaves it, and the load callback reads the storage and returns
  the message of its \<^verbatim>\<open>IOError\<close> or the loaded data.
\<close>
record KeyMapper =
  keys :: "(string \<times> real) list"
  keyBindings :: "(string \<times> KeyBinding) list"
  keyOrder :: "string list"
  keyStateCallback :: "nat option"
  acceptKeyCombinations :: bool
  negativeValuesForNegativeAxes :: bool
  bindingFile :: string
  bindingFileCustom :: string
  events :: "string \<Rightarrow> Handler option"
  dataNPList :: "Device list"
  deviceAxisTestValues :: "(Device \<times> (string \<times> real) list) list"
  lastKeyInterception :: "string option"
  lastKeyInterceptionDeviceType :: "string option"
  lastKeyInterceptionValue :: int
  keyBeingBound :: "string option"
  currentConflict :: "string option"
  conflictContinueArgs :: "string option"
  bindingDialogueVisible :: bool
  bindingDialogueShown :: bool
  conflictDialogueShown :: bool
  errorDialogueShown :: bool
  errorLabel :: string
  devicesInUse :: "Device list"
  deadZoneDefaultValue :: real
  axesInUse :: "AxisData list"
  loadMappingCallback :: "(string \<Rightarrow> Storage \<Rightarrow> string + KeySaveData \<times> AxisSaveData) option"
  saveMappingCallback :: "(KeySaveData \<Rightarrow> AxisSaveData \<Rightarrow> string \<Rightarrow> Storage
                            \<Rightarrow> string + Storage) option"
  storage :: Storage
  connectedDevices :: "Device list"
  existingFiles :: "string list"
  deviceAxes :: "Device \<Rightarrow> (string \<times> real) list"
  callbackLog :: "Call list"

subsection \<open>Dictionaries\<close>

text \<open>Mutating the object stored under a key; the key keeps its place.\<close>
fun modify :: "'k \<Rightarrow> ('v \<Rightarrow> 'v) \<Rightarrow> ('k \<times> 'v) list \<Rightarrow> ('k \<times> 'v) list" where
  "modify k f [] = []"
| "modify k f ((k', v) # al) = (if k' = k then (k', f v) # al else (k', v) # modify k f al)"

text \<open>\<^verbatim>\<open>d[k] = v\<close>: an existing key keeps its place, a new key goes to the end.\<close>
fun assign :: "'k \<Rightarrow> 'v \<Rightarrow> ('k \<times> 'v) list \<Rightarrow> ('k \<times> 'v) list" where
  "assign k v [] = [(k, v)]"
| "assign k v ((k', v') # al) = (if k' = k then (k, v) # al else (k', v') # assign k v al)"

text \<open>\<^verbatim>\<open>eventObject.accept\<close> and \<^verbatim>\<open>eventObject.ignore\<close> on the table of subscriptions.\<close>
definition accept :: "string \<Rightarrow> Handler \<Rightarrow> (string \<Rightarrow> Handler option) \<Rightarrow> (string \<Rightarrow> Handler option)" where
  "accept name h ev = (\<lambda>n. if n = name then Some h else ev n)"

definition ignore :: "string \<Rightarrow> (string \<Rightarrow> Handler option) \<Rightarrow> (string \<Rightarrow> Handler option)" where
  "ignore name ev = (\<lambda>n. if n = name then None else ev n)"

subsection \<open>Devices\<close>

text \<open>The member names of the engine's \<^verbatim>\<open>InputDevice.DeviceClass\<close>.\<close>
definition device_classes :: "string list" where
  "device_classes = [''unknown'', ''virtual_device'', ''keyboard'', ''mouse'', ''touch'',
     ''gamepad'', ''flight_stick'', ''steering_wheel'', ''dance_pad'', ''hmd'',
     ''spatial_mouse'', ''digitizer'']"

text \<open>\<^verbatim>\<open>eval("InputDevice.DeviceClass." + name)\<close>: the member, or \<^verbatim>\<open>AttributeError\<close>.\<close>
definition eval_device_class :: "string \<Rightarrow> error + string" where
  "eval_device_class name =
     (if name \<in> set device_classes then Inr name else Inl (AttributeError name))"

text \<open>\<^verbatim>\<open>str\<close> of a member of \<^verbatim>\<open>InputDevice.DeviceClass\<close>.\<close>
definition str_device_class :: "string \<Rightarrow> string" where
  "str_device_class cls = ''DeviceClass.'' @ cls"

definition getDeviceTypeString :: "string \<Rightarrow> string" where
  "getDeviceTypeString deviceTypeInputString =
     (let parts = split_dot [] deviceTypeInputString; numParts = length parts
      in if numParts = 0 then deviceTypeInputString
         else if numParts = 1 then deviceTypeInputString
         else last parts)"

text \<open>
  One round of the loop of \<^verbatim>\<open>removeUsedDevice\<close> over the devices to remove. The list
  \<open>dataNPList\<close> holds, for each data node set up for interception, the device of the node.
\<close>
definition removeDevice :: "Device \<Rightarrow> KeyMapper \<Rightarrow> KeyMapper" where
  "removeDevice device s = s\<lparr>
     axesInUse := map (\<lambda>axisData. axisData\<lparr>
         devicePositive := (if devicePositive axisData = Some device then None
                            else devicePositive axisData),
         deviceNegative := (if deviceNegative axisData = Some device then None
                            else deviceNegative axisData)\<rparr>) (axesInUse s),
     devicesInUse := removeAll device (devicesInUse s),
     dataNPList := filter (\<lambda>other. other \<noteq> device) (dataNPList s)\<rparr>"

definition removeUsedDevice :: "string option \<Rightarrow> KeyMapper \<Rightarrow> error + KeyMapper" where
  "removeUsedDevice deviceTypeToRemove s =
     (case deviceTypeToRemove of
        None \<Rightarrow> Inl (TypeError ''can only concatenate str to str'')
      | Some name \<Rightarrow>
          (case eval_device_class name of
             Inl e \<Rightarrow> Inl e
           | Inr cls \<Rightarrow>
               if cls = ''keyboard'' \<or> cls = ''mouse'' then Inr s
               else Inr (fold removeDevice
                           (filter (\<lambda>device. device_class device = cls) (devicesInUse s)) s)))"

definition addUsedDevice :: "string \<Rightarrow> KeyMapper \<Rightarrow> error + (Device option \<times> KeyMapper)" where
  "addUsedDevice deviceTypeToAdd s =
     (case eval_device_class deviceTypeToAdd of
        Inl e \<Rightarrow> Inl e
      | Inr cls \<Rightarrow>
          (case find (\<lambda>device. device_class device = cls) (devicesInUse s) of
             Some device \<Rightarrow> Inr (Some device, s)
           | None \<Rightarrow>
               (case filter (\<lambda>device. device_class device = cls) (connectedDevices s) of
                  [] \<Rightarrow> Inr (None, s)
                | device # _ \<Rightarrow>
                    let deviceTypeString = getDeviceTypeString (str_device_class cls)
                    in Inr (Some device, s\<lparr>
                         devicesInUse := devicesInUse s @ [device],
                         axesInUse := map (\<lambda>axisData. axisData\<lparr>
                             devicePositive :=
                               (if deviceTypePositive axisData = Some deviceTypeString
                                then Some device else devicePositive axisData),
                             deviceNegative :=
                               (if deviceTypeNegative axisData = Some deviceTypeString
                                then Some device else deviceNegative axisData)\<rparr>)
                           (axesInUse s)\<rparr>))))"

subsection \<open>Clearing a binding\<close>

text \<open>The body of the loop of \<^verbatim>\<open>clearKeyEvent\<close> over \<^verbatim>\<open>axesInUse\<close>, for one entry.\<close>
definition clearAxisEntry :: "string \<Rightarrow> int \<Rightarrow> AxisData \<Rightarrow> string option \<times> AxisData" where
  "clearAxisEntry bindingStr direction axisData =
     (if axis axisData = bindingStr then
        if direction = - 1 then
          (case keyDescriptionNegative axisData of
             None \<Rightarrow> (None, axisData)
           | Some k \<Rightarrow> (Some k, axisData\<lparr>keyDescriptionNegative := None,
                          deviceTypeNegative := None, deviceNegative := None\<rparr>))
        else if direction = 1 then
          (case keyDescriptionPositive axisData of
             None \<Rightarrow> (None, axisData)
           | Some k \<Rightarrow> (Some k, axisData\<lparr>keyDescriptionPositive := None,
                          deviceTypePositive := None, devicePositive := None\<rparr>))
        else (None, axisData)
      else (None, axisData))"

fun clearAxisEntries :: "string \<Rightarrow> int \<Rightarrow> AxisData list \<Rightarrow> string list \<times> AxisData list" where
  "clearAxisEntries bindingStr direction [] = ([], [])"
| "clearAxisEntries bindingStr direction (axisData # rest) =
     (let (k, axisData') = clearAxisEntry bindingStr direction axisData;
          (ks, rest') = clearAxisEntries bindingStr direction rest
      in ((case k of None \<Rightarrow> ks | Some key \<Rightarrow> key # ks), axisData' # rest'))"

text \<open>The two assignments that take the binding from a control.\<close>
definition unbound :: "KeyBinding \<Rightarrow> KeyBinding" where
  "unbound kb = kb\<lparr>binding := None, deviceType := None\<rparr>"

text \<open>The loop over \<^verbatim>\<open>keysToChange\<close>: returns \<^verbatim>\<open>deviceTypesToCheck\<close> and the new table.\<close>
fun unbindKeys :: "string list \<Rightarrow> (string \<times> KeyBinding) list
    \<Rightarrow> error + (string option list \<times> (string \<times> KeyBinding) list)" where
  "unbindKeys [] kbs = Inr ([], kbs)"
| "unbindKeys (key # ks) kbs =
     (case map_of kbs key of
        None \<Rightarrow> Inl (KeyError key)
      | Some kb \<Rightarrow>
          (case unbindKeys ks (modify key unbound kbs) of
             Inl e \<Rightarrow> Inl e
           | Inr (dts, kbs') \<Rightarrow> Inr (deviceType kb # dts, kbs')))"

text \<open>The loop over \<^verbatim>\<open>deviceTypesToCheck\<close>.\<close>
fun removeUnusedDevices :: "string option list \<Rightarrow> string option list \<Rightarrow> KeyMapper
    \<Rightarrow> error + KeyMapper" where
  "removeUnusedDevices [] boundDeviceList s = Inr s"
| "removeUnusedDevices (dt # dts) boundDeviceList s =
     (if dt \<notin> set boundDeviceList then
        (case removeUsedDevice dt s of
           Inl e \<Rightarrow> Inl e
         | Inr s' \<Rightarrow> removeUnusedDevices dts boundDeviceList s')
      else removeUnusedDevices dts boundDeviceList s)"

definition claimed :: "AxisData \<Rightarrow> bool" where
  "claimed axisData \<longleftrightarrow>
     keyDescriptionPositive axisData \<noteq> None \<or> keyDescriptionNegative axisData \<noteq> None"

definition clearKeyEvent :: "string option \<Rightarrow> int \<Rightarrow> KeyMapper \<Rightarrow> error + KeyMapper" where
  "clearKeyEvent bnd direction s =
     (case bnd of
        None \<Rightarrow> Inr s
      | Some b \<Rightarrow>
          let (keysToChange, axes) =
                (if is_axis b then clearAxisEntries (drop 5 b) direction (axesInUse s)
                 else (map fst (filter (\<lambda>(k, kb). binding kb = Some b) (keyBindings s)),
                       axesInUse s))
          in (case unbindKeys keysToChange (keyBindings s) of
               Inl e \<Rightarrow> Inl e
             | Inr (deviceTypesToCheck, kbs) \<Rightarrow>
                 (case removeUnusedDevices deviceTypesToCheck (map (\<lambda>(k, kb). deviceType kb) kbs)
                         (s\<lparr>axesInUse := axes, keyBindings := kbs\<rparr>) of
                    Inl e \<Rightarrow> Inl e
                  | Inr s' \<Rightarrow> Inr (s'\<lparr>
                      events := ignore (b @ ''-up'') (ignore b (events s')),
                      axesInUse := filter claimed (axesInUse s')\<rparr>))))"


subsection \<open>Setting a binding\<close>

text \<open>
  \<^verbatim>\<open>eventObject.accept\<close> of a callback of the application. The event object derives from the
  engine's \<^verbatim>\<open>DirectObject\<close>, whose \<^verbatim>\<open>accept\<close> asserts that the method is callable: a list or a
  tuple raises \<^verbatim>\<open>AssertionError\<close>.
\<close>
definition acceptCallback :: "string \<Rightarrow> Callback \<Rightarrow> Handler \<Rightarrow> (string \<Rightarrow> Handler option)
    \<Rightarrow> error + (string \<Rightarrow> Handler option)" where
  "acceptCallback name cb h ev =
     (case cb of
        Single f \<Rightarrow> Inr (accept name h ev)
      | _ \<Rightarrow> Inl (AssertionError ''method not callable in accept''))"

text \<open>
  The event subscriptions of \<^verbatim>\<open>bindKey\<close>, by binding type. This is where a missing callback
  raises, and where a callback that is not callable reaches \<^verbatim>\<open>accept\<close>.
\<close>
definition subscribe :: "string \<Rightarrow> string option \<Rightarrow> KeyType \<Rightarrow> Callback
    \<Rightarrow> (string \<Rightarrow> Handler option) \<Rightarrow> error + (string \<Rightarrow> Handler option)" where
  "subscribe keyDesc bnd type cb ev =
     (case type of
        KEYMAP_HELD_KEY \<Rightarrow>
          (case bnd of
             None \<Rightarrow> Inr ev
           | Some b \<Rightarrow> Inr (accept (b @ ''-up'') (KeyPressed keyDesc 0)
                             (accept b (KeyPressed keyDesc 1) ev)))
      | KEYMAP_EVENT_PRESSED \<Rightarrow>
          if cb \<noteq> NoCallback then
            (case bnd of
               None \<Rightarrow> Inr ev
             | Some b \<Rightarrow> acceptCallback b cb (UserCallback cb keyDesc) ev)
          else Inl (Exception
                 ''Callback missing in attempt to bind key using the pressed event.'')
      | KEYMAP_EVENT_RELEASED \<Rightarrow>
          if cb \<noteq> NoCallback then
            (case bnd of
               None \<Rightarrow> Inr ev
             | Some b \<Rightarrow> acceptCallback (b @ ''-up'') cb (UserCallback cb keyDesc) ev)
          else Inl (Exception
                 ''Callback missing in attempt to bind key using the pressed event.'')
      | KEYMAP_EVENT_PRESSED_AND_RELEASED \<Rightarrow>
          (case cb of
             CallbackList cbs \<Rightarrow>
               if length cbs < 2 then Inl (Exception
                 ''Callback missing in attempt to bind key using both the pressed- and released- events. There should be 2'')
               else if cbs ! 0 = None then Inl (Exception
                 ''First callback missing in attempt to bind key using the pressed- and released- events event.'')
               else if cbs ! 1 = None then Inl (Exception
                 ''Second callback missing in attempt to bind key using the pressed- and released- events event.'')
               else
                 (case bnd of
                    None \<Rightarrow> Inr ev
                  | Some b \<Rightarrow>
                      Inr (accept (b @ ''-up'') (UserCallback (Single (the (cbs ! 1))) keyDesc)
                            (accept b (UserCallback (Single (the (cbs ! 0))) keyDesc) ev)))
           | _ \<Rightarrow>
               if cb \<noteq> NoCallback then
                 (case bnd of
                    None \<Rightarrow> Inr ev
                  | Some b \<Rightarrow>
                      (case acceptCallback b cb
                              (UserCallbackEvent cb keyDesc KEYMAP_EVENT_PRESSED) ev of
                         Inl e \<Rightarrow> Inl e
                       | Inr ev' \<Rightarrow>
                           acceptCallback (b @ ''-up'') cb
                             (UserCallbackEvent cb keyDesc KEYMAP_EVENT_RELEASED) ev'))
               else Inl (Exception
                 ''Callback missing in attempt to bind key using both the pressed- and released- events.'')))"

text \<open>The assignments of \<^verbatim>\<open>bindKey\<close> to an axis entry, by direction.\<close>
definition claimAxisEntry :: "string \<Rightarrow> Device option \<Rightarrow> string \<Rightarrow> int \<Rightarrow> AxisData \<Rightarrow> AxisData" where
  "claimAxisEntry keyDesc device devType direction axisData =
     (if direction > 0 then
        axisData\<lparr>keyDescriptionPositive := Some keyDesc, devicePositive := device,
                 deviceTypePositive := Some devType\<rparr>
      else if direction < 0 then
        axisData\<lparr>keyDescriptionNegative := Some keyDesc, deviceNegative := device,
                 deviceTypeNegative := Some devType\<rparr>
      else axisData)"

text \<open>\<^verbatim>\<open>AxisData()\<close>\<close>
definition newAxisData :: AxisData where
  "newAxisData = \<lparr>axis = [], keyDescriptionPositive = None, keyDescriptionNegative = None,
     deadZone = 0, deviceTypePositive = None, deviceTypeNegative = None,
     devicePositive = None, deviceNegative = None\<rparr>"

definition updateAxes :: "string \<Rightarrow> string \<Rightarrow> Device option \<Rightarrow> string \<Rightarrow> int \<Rightarrow> real
    \<Rightarrow> AxisData list \<Rightarrow> AxisData list" where
  "updateAxes axisStr keyDesc device devType direction deadZoneDefault axes =
     (let foundAxis = (\<exists>axisData \<in> set axes. axis axisData = axisStr);
          axes' = map (\<lambda>axisData. if axis axisData = axisStr
                         then claimAxisEntry keyDesc device devType direction axisData
                         else axisData) axes
      in if \<not> foundAxis
         then axes' @ [claimAxisEntry keyDesc device devType direction
                         (newAxisData\<lparr>axis := axisStr, deadZone := deadZoneDefault\<rparr>)]
         else axes')"

definition bindKey :: "string \<Rightarrow> string option \<Rightarrow> KeyType \<Rightarrow> Callback \<Rightarrow> string option \<Rightarrow> int
    \<Rightarrow> KeyMapper \<Rightarrow> error + KeyMapper" where
  "bindKey keyDesc bnd type cb devType direction s =
     (case clearKeyEvent bnd direction s of
        Inl e \<Rightarrow> Inl e
      | Inr s1 \<Rightarrow>
     (case map_of (keyBindings s1) keyDesc of
        None \<Rightarrow> Inl (KeyError keyDesc)
      | Some old \<Rightarrow>
     (case clearKeyEvent (binding old) (axisDirection old) s1 of
        Inl e \<Rightarrow> Inl e
      | Inr s2 \<Rightarrow>
     (case subscribe keyDesc bnd type cb (events s2) of
        Inl e \<Rightarrow> Inl e
      | Inr ev \<Rightarrow>
          let s3 = s2\<lparr>events := ev,
                     keyBindings := modify keyDesc
                       (\<lambda>kb. kb\<lparr>binding := bnd, deviceType := devType, axisDirection := direction\<rparr>)
                       (keyBindings s2)\<rparr>
          in (case (bnd, devType) of
                (Some b, Some dt) \<Rightarrow>
                  (case addUsedDevice dt s3 of
                     Inl e \<Rightarrow> Inl e
                   | Inr (device, s4) \<Rightarrow>
                       if is_axis b
                       then Inr (s4\<lparr>axesInUse := updateAxes (drop 5 b) keyDesc device dt direction
                                        (deadZoneDefaultValue s4) (axesInUse s4)\<rparr>)
                       else Inr s4)
              | _ \<Rightarrow> Inr s3)))))"


subsection \<open>Saving and loading\<close>

definition showErrorDialogue :: "string \<Rightarrow> KeyMapper \<Rightarrow> KeyMapper" where
  "showErrorDialogue e s = s\<lparr>errorDialogueShown := True, errorLabel := e\<rparr>"

definition keySaveDataOf :: "(string \<times> KeyBinding) list \<Rightarrow> KeySaveData" where
  "keySaveDataOf kbs = map (\<lambda>(keyDesc, kb). (keyDesc, binding kb, deviceType kb, axisDirection kb)) kbs"

definition axisSaveDataOf :: "AxisData list \<Rightarrow> AxisSaveData" where
  "axisSaveDataOf axes = map (\<lambda>axisData. (axis axisData, deadZone axisData)) axes"

definition saveKeyMapping :: "KeyMapper \<Rightarrow> KeyMapper" where
  "saveKeyMapping s =
     (case saveMappingCallback s of
        Some saveCallback \<Rightarrow>
          (case saveCallback (keySaveDataOf (keyBindings s)) (axisSaveDataOf (axesInUse s))
                  (bindingFile s) (storage s) of
             Inr stored \<Rightarrow> s\<lparr>storage := stored\<rparr>
           | Inl e \<Rightarrow> showErrorDialogue e s)
      | None \<Rightarrow> showErrorDialogue (''No file-saving callback found! The file ''
                  @ bindingFile s @ '' will thus not be saved.'') s)"

text \<open>The first loop of \<^verbatim>\<open>loadKeyMapping\<close>: the look-up of each saved control raises
  \<^verbatim>\<open>KeyError\<close> when the control is not registered.\<close>
fun bindingListOf :: "KeySaveData \<Rightarrow> (string \<times> KeyBinding) list
    \<Rightarrow> error + (string \<times> string option \<times> KeyType \<times> string option \<times> Callback \<times> int) list" where
  "bindingListOf [] kbs = Inr []"
| "bindingListOf ((description, bnd, devType, direction) # rest) kbs =
     (case map_of kbs description of
        None \<Rightarrow> Inl (KeyError description)
      | Some bindingData \<Rightarrow>
          (case bindingListOf rest kbs of
             Inl e \<Rightarrow> Inl e
           | Inr bindingList \<Rightarrow>
               Inr ((description, bnd, keyType bindingData, devType, callback bindingData, direction)
                     # bindingList)))"

text \<open>The last loop of \<^verbatim>\<open>loadKeyMapping\<close>.\<close>
fun bindAll :: "(string \<times> string option \<times> KeyType \<times> string option \<times> Callback \<times> int) list
    \<Rightarrow> KeyMapper \<Rightarrow> error + KeyMapper" where
  "bindAll [] s = Inr s"
| "bindAll ((keyDesc, bnd, controlType, devType, cb, direction) # rest) s =
     (case bindKey keyDesc bnd controlType cb devType direction s of
        Inl e \<Rightarrow> Inl e
      | Inr s' \<Rightarrow> bindAll rest s')"

definition loadKeyMapping :: "KeyMapper \<Rightarrow> error + KeyMapper" where
  "loadKeyMapping s =
     (case loadMappingCallback s of
        None \<Rightarrow> Inr (showErrorDialogue (''No file-loading callback found! The file ''
                  @ bindingFile s @ '' will thus not be loaded.'') s)
      | Some loadCallback \<Rightarrow>
          (case loadCallback (bindingFile s) (storage s) of
             Inl e \<Rightarrow>
               bindAll [] (if bindingFile s \<in> set (existingFiles s)
                           then showErrorDialogue e s else s)
           | Inr (keySaveData, axisSaveData) \<Rightarrow>
               (case bindingListOf keySaveData (keyBindings s) of
                  Inl e \<Rightarrow> Inl e
                | Inr bindingList \<Rightarrow>
                    bindAll bindingList
                      (s\<lparr>axesInUse := map (\<lambda>(axisStr, dz).
                             newAxisData\<lparr>axis := axisStr, deadZone := dz\<rparr>) axisSaveData\<rparr>))))"

subsection \<open>Registering a control\<close>

text \<open>\<^verbatim>\<open>KeyBinding()\<close>\<close>
definition newKeyBinding :: KeyBinding where
  "newKeyBinding = \<lparr>keyDescription = None, binding = None, defaultBinding = None,
     keyType = KEYMAP_EVENT_RELEASED, callback = NoCallback, deviceType = None,
     defaultDeviceType = None, axisDirection = 0, groupID = 1\<rparr>"

text \<open>
  \<^verbatim>\<open>addKey\<close>. The device type is given as the string that \<^verbatim>\<open>getDeviceTypeString\<close> receives
  (for a member of \<^verbatim>\<open>InputDevice.DeviceClass\<close>, its \<^verbatim>\<open>str\<close>). The field \<^verbatim>\<open>type\<close> of a new
  \<^verbatim>\<open>KeyBinding\<close> is \<^verbatim>\<open>None\<close> until \<^verbatim>\<open>addKey\<close> assigns it, which it always does.
\<close>
definition addKey :: "string \<Rightarrow> string option \<Rightarrow> string \<Rightarrow> KeyType \<Rightarrow> Callback \<Rightarrow> int
    \<Rightarrow> 32 word option \<Rightarrow> KeyMapper \<Rightarrow> error + KeyMapper" where
  "addKey description defaultKey defaultKeyDeviceType type cb direction groupArg s =
     (let defaultKeyDeviceTypeStr = getDeviceTypeString defaultKeyDeviceType;
          newBinding = newKeyBinding\<lparr>keyDescription := Some description, binding := defaultKey,
            defaultBinding := defaultKey, keyType := type, callback := cb,
            defaultDeviceType := Some defaultKeyDeviceTypeStr,
            deviceType := Some defaultKeyDeviceTypeStr, axisDirection := direction,
            groupID := (case groupArg of None \<Rightarrow> 1 | Some g \<Rightarrow> g)\<rparr>;
          s1 = s\<lparr>keys := assign description 0 (keys s),
                 keyBindings := assign description newBinding (keyBindings s)\<rparr>
      in (case bindKey description defaultKey type cb (Some defaultKeyDeviceTypeStr) direction s1 of
            Inl e \<Rightarrow> Inl e
          | Inr s2 \<Rightarrow> Inr (s2\<lparr>keyOrder := keyOrder s2 @ [description]\<rparr>)))"


subsection \<open>The rebinding dialogue\<close>

text \<open>\<^verbatim>\<open>clearEvents\<close>: the interception events of the button throwers are switched off and the
  data nodes set up for interception are released.\<close>
definition clearEvents :: "KeyMapper \<Rightarrow> KeyMapper" where
  "clearEvents s = s\<lparr>dataNPList := []\<rparr>"

definition setupEventsForDevice :: "Device \<Rightarrow> KeyMapper \<Rightarrow> KeyMapper" where
  "setupEventsForDevice device s =
     (if device_class device \<noteq> ''keyboard'' \<and> device_class device \<noteq> ''mouse'' then
        s\<lparr>dataNPList := dataNPList s @ [device],
          deviceAxisTestValues := assign device
            (fold (\<lambda>(axisID, v) samples. assign axisID v samples) (deviceAxes s device) [])
            (deviceAxisTestValues s)\<rparr>
      else s)"

definition setEvents :: "KeyMapper \<Rightarrow> KeyMapper" where
  "setEvents s = fold setupEventsForDevice (connectedDevices s) s"

definition showBindingDialogue :: "string \<Rightarrow> KeyMapper \<Rightarrow> error + KeyMapper" where
  "showBindingDialogue keyDesc s =
     (case map_of (keyBindings s) keyDesc of
        None \<Rightarrow> Inl (KeyError keyDesc)
      | Some kb \<Rightarrow>
          Inr (setEvents (s\<lparr>lastKeyInterception := None, lastKeyInterceptionDeviceType := None,
                 lastKeyInterceptionValue := 0, bindingDialogueShown := True,
                 bindingDialogueVisible := True, deviceAxisTestValues := []\<rparr>)))"

definition hideBindingDialogue :: "KeyMapper \<Rightarrow> KeyMapper" where
  "hideBindingDialogue s =
     clearEvents (s\<lparr>bindingDialogueShown := False, bindingDialogueVisible := False,
       lastKeyInterception := None, lastKeyInterceptionDeviceType := None,
       lastKeyInterceptionValue := 0\<rparr>)"

definition getNewBinding :: "string \<Rightarrow> KeyMapper \<Rightarrow> error + KeyMapper" where
  "getNewBinding keyDesc s = showBindingDialogue keyDesc (s\<lparr>keyBeingBound := Some keyDesc\<rparr>)"

text \<open>
  \<^verbatim>\<open>keyInterception\<close>. The value is normalised to its sign; a value that is neither
  positive nor negative is stored as it is, that is, zero.
\<close>
definition keyInterception :: "string option \<Rightarrow> string \<Rightarrow> real \<Rightarrow> KeyMapper \<Rightarrow> KeyMapper" where
  "keyInterception devTypeArg key keyValue s =
     (let devType = (case devTypeArg of
                       None \<Rightarrow> if startswith key ''mouse''
                               then getDeviceTypeString (str_device_class ''mouse'')
                               else getDeviceTypeString (str_device_class ''keyboard'')
                     | Some d \<Rightarrow> d)
      in if acceptKeyCombinations s \<or> \<not> contains key ''-'' then
           s\<lparr>lastKeyInterceptionDeviceType := Some devType,
             lastKeyInterception := Some key,
             lastKeyInterceptionValue := (if keyValue > 0 then 1 else if keyValue < 0 then - 1 else 0)\<rparr>
         else s)"

text \<open>\<^verbatim>\<open>BitMask32.hasBitsInCommon\<close>\<close>
definition hasBitsInCommon :: "32 word \<Rightarrow> 32 word \<Rightarrow> bool" where
  "hasBitsInCommon a b \<longleftrightarrow> a AND b \<noteq> 0"

text \<open>The inner loop of \<^verbatim>\<open>keyRelease\<close> over \<^verbatim>\<open>axesInUse\<close>, for a control bound to an axis.\<close>
definition axisConflict :: "string \<Rightarrow> int \<Rightarrow> AxisData list \<Rightarrow> string option \<Rightarrow> string option" where
  "axisConflict keyDesc v axes conflict =
     fold (\<lambda>axisData c.
        let c1 = (if keyDescriptionPositive axisData = Some keyDesc \<and> v > 0 then Some keyDesc else c)
        in if keyDescriptionNegative axisData = Some keyDesc \<and> v < 0 then Some keyDesc else c1)
       axes conflict"

text \<open>The loop of \<^verbatim>\<open>keyRelease\<close> over the controls; \<open>candidate\<close> is \<^verbatim>\<open>lastKeyInterception\<close>.\<close>
definition findConflict :: "string \<Rightarrow> int \<Rightarrow> string \<Rightarrow> 32 word \<Rightarrow> AxisData list
    \<Rightarrow> (string \<times> KeyBinding) list \<Rightarrow> string option" where
  "findConflict candidate v beingBound keyBeingBoundGroup axes kbs =
     fold (\<lambda>(keyDesc, kb) conflict.
        if binding kb = Some candidate \<and> keyDesc \<noteq> beingBound
           \<and> hasBitsInCommon (groupID kb) keyBeingBoundGroup
        then (if is_axis candidate then axisConflict keyDesc v axes conflict else Some keyDesc)
        else conflict)
       kbs None"

definition handleBindingConflict :: "string \<Rightarrow> string \<Rightarrow> KeyMapper \<Rightarrow> KeyMapper" where
  "handleBindingConflict keyToBeBound conflictingKey s =
     (clearEvents (s\<lparr>bindingDialogueShown := False\<rparr>))\<lparr>
        currentConflict := Some conflictingKey,
        conflictContinueArgs := Some keyToBeBound,
        conflictDialogueShown := True\<rparr>"

text \<open>\<^verbatim>\<open>finishKeyRelease\<close>; the texts of the list buttons are left out.\<close>
definition finishKeyRelease :: "string \<Rightarrow> KeyMapper \<Rightarrow> error + KeyMapper" where
  "finishKeyRelease key s =
     (case keyBeingBound s of
        None \<Rightarrow> Inl (KeyError ''None'')
      | Some beingBound \<Rightarrow>
     (case map_of (keyBindings s) beingBound of
        None \<Rightarrow> Inl (KeyError beingBound)
      | Some kb \<Rightarrow>
     (case bindKey beingBound (lastKeyInterception s) (keyType kb) (callback kb)
             (lastKeyInterceptionDeviceType s) (lastKeyInterceptionValue s) s of
        Inl e \<Rightarrow> Inl e
      | Inr s1 \<Rightarrow>
          let s2 = hideBindingDialogue (s1\<lparr>keyBeingBound := None\<rparr>);
              s3 = saveKeyMapping (s2\<lparr>bindingFile := bindingFileCustom s2\<rparr>)
          in Inr (s3\<lparr>deviceAxisTestValues := []\<rparr>))))"

definition keyRelease :: "string \<Rightarrow> KeyMapper \<Rightarrow> error + KeyMapper" where
  "keyRelease key s =
     (if bindingDialogueVisible s then
        (case keyBeingBound s of
           None \<Rightarrow> Inr s
         | Some beingBound \<Rightarrow>
             if lastKeyInterception s \<noteq> None
                \<or> (contains key ''mouse'' \<and> (acceptKeyCombinations s \<or> \<not> contains key ''-''))
             then
               (let candidate = (case lastKeyInterception s of None \<Rightarrow> key | Some k \<Rightarrow> k);
                    devType = (case lastKeyInterceptionDeviceType s of
                                 None \<Rightarrow> if startswith candidate ''mouse''
                                         then getDeviceTypeString (str_device_class ''mouse'')
                                         else getDeviceTypeString (str_device_class ''keyboard'')
                               | Some d \<Rightarrow> d);
                    s1 = s\<lparr>lastKeyInterception := Some candidate,
                           lastKeyInterceptionDeviceType := Some devType\<rparr>
                in (case map_of (keyBindings s1) beingBound of
                      None \<Rightarrow> Inl (KeyError beingBound)
                    | Some kb \<Rightarrow>
                        (case findConflict candidate (lastKeyInterceptionValue s1) beingBound
                                (groupID kb) (axesInUse s1) (keyBindings s1) of
                           Some conflict \<Rightarrow> Inr (handleBindingConflict key conflict s1)
                         | None \<Rightarrow> finishKeyRelease key s1)))
             else Inr s)
      else Inr s)"

definition conflictResolutionCancel :: "KeyMapper \<Rightarrow> KeyMapper" where
  "conflictResolutionCancel s =
     (setEvents (s\<lparr>lastKeyInterception := None, currentConflict := None,
        conflictDialogueShown := False\<rparr>))\<lparr>bindingDialogueShown := True\<rparr>"

definition conflictResolutionContinue :: "string \<Rightarrow> KeyMapper \<Rightarrow> error + KeyMapper" where
  "conflictResolutionContinue key s =
     (case finishKeyRelease key (s\<lparr>conflictDialogueShown := False\<rparr>) of
        Inl e \<Rightarrow> Inl e
      | Inr s' \<Rightarrow> Inr (s'\<lparr>currentConflict := None\<rparr>))"


subsection \<open>The per-frame update\<close>

text \<open>Calling what is stored as a callback: only a callable can be called.\<close>
definition callable :: "Callback \<Rightarrow> error + nat" where
  "callable cb = (case cb of Single f \<Rightarrow> Inr f | _ \<Rightarrow> Inl (TypeError ''object is not callable''))"

text \<open>\<^verbatim>\<open>callback[i]\<close> of a list or tuple of callbacks, then the call.\<close>
definition callable_at :: "nat option list \<Rightarrow> nat \<Rightarrow> error + nat" where
  "callable_at cbs i =
     (if i < length cbs
      then (case cbs ! i of Some f \<Rightarrow> Inr f | None \<Rightarrow> Inl (TypeError ''object is not callable''))
      else Inl (IndexError ''index out of range''))"

text \<open>The user callback called on a rising or a falling edge of a binary control, if any.\<close>
definition edgeCallback :: "KeyBinding \<Rightarrow> string \<Rightarrow> KeyType \<Rightarrow> error + Call list" where
  "edgeCallback kb keyDesc edge =
     (if keyType kb = edge then
        (case callable (callback kb) of Inl e \<Rightarrow> Inl e | Inr f \<Rightarrow> Inr [Call f keyDesc])
      else if keyType kb = KEYMAP_EVENT_PRESSED_AND_RELEASED then
        (case callback kb of
           CallbackList cbs \<Rightarrow>
             (case callable_at cbs (if edge = KEYMAP_EVENT_PRESSED then 0 else 1) of
                Inl e \<Rightarrow> Inl e | Inr f \<Rightarrow> Inr [Call f keyDesc])
         | cb \<Rightarrow>
             (case callable cb of Inl e \<Rightarrow> Inl e | Inr f \<Rightarrow> Inr [CallEvent f keyDesc edge]))
      else Inr [])"

definition handleAxis :: "string option \<Rightarrow> real \<Rightarrow> real \<Rightarrow> KeyMapper \<Rightarrow> error + KeyMapper" where
  "handleAxis keyDescArg v deadZoneVal s =
     (case keyDescArg of
        None \<Rightarrow> Inr s
      | Some keyDesc \<Rightarrow>
     (case map_of (keys s) keyDesc of
        None \<Rightarrow> Inl (KeyError keyDesc)
      | Some old \<Rightarrow>
     (case map_of (keyBindings s) keyDesc of
        None \<Rightarrow> Inl (KeyError keyDesc)
      | Some kb \<Rightarrow>
          let absValue = \<bar>v\<bar>; oldKeyState = \<bar>old\<bar>;
              stateCalls = (\<lambda>fire flag. case keyStateCallback s of
                              Some f \<Rightarrow> if fire then [CallState f keyDesc flag] else []
                            | None \<Rightarrow> [])
          in if keyType kb \<noteq> KEYMAP_HELD_KEY then
               (if oldKeyState < 0.5 \<and> absValue > 0.5 then
                  (case edgeCallback kb keyDesc KEYMAP_EVENT_PRESSED of
                     Inl e \<Rightarrow> Inl e
                   | Inr calls \<Rightarrow> Inr (s\<lparr>
                       keys := assign keyDesc
                         (if negativeValuesForNegativeAxes s then (if v > 0 then 1 else - 1) else 1)
                         (keys s),
                       callbackLog := callbackLog s @ calls\<rparr>))
                else if oldKeyState > 0.5 \<and> absValue < 0.5 then
                  (case edgeCallback kb keyDesc KEYMAP_EVENT_RELEASED of
                     Inl e \<Rightarrow> Inl e
                   | Inr calls \<Rightarrow> Inr (s\<lparr>keys := assign keyDesc 0 (keys s),
                       callbackLog := callbackLog s @ calls\<rparr>))
                else Inr s)
             else if absValue < deadZoneVal then
               Inr (s\<lparr>keys := assign keyDesc 0 (keys s),
                      callbackLog := callbackLog s @ stateCalls (oldKeyState \<noteq> 0) 0\<rparr>)
             else if negativeValuesForNegativeAxes s then
               Inr (s\<lparr>keys := assign keyDesc v (keys s),
                      callbackLog := callbackLog s @ stateCalls (oldKeyState = 0) 1\<rparr>)
             else
               Inr (s\<lparr>keys := assign keyDesc absValue (keys s),
                      callbackLog := callbackLog s @ stateCalls (oldKeyState = 0) 1\<rparr>))))"

text \<open>The member names of the engine's \<^verbatim>\<open>InputDevice.Axis\<close>.\<close>
definition axis_names :: "string list" where
  "axis_names = [''none'', ''x'', ''y'', ''z'', ''yaw'', ''pitch'', ''roll'', ''left_x'', ''left_y'',
     ''left_trigger'', ''right_x'', ''right_y'', ''right_trigger'', ''throttle'', ''rudder'',
     ''wheel'', ''accelerator'', ''brake'', ''pressure'']"

text \<open>\<^verbatim>\<open>device.findAxis(InputDevice.Axis[axisStr]).value\<close>; an axis the device does not have
  reads zero.\<close>
definition findAxisValue :: "KeyMapper \<Rightarrow> Device \<Rightarrow> string \<Rightarrow> error + real" where
  "findAxisValue s device axisStr =
     (if axisStr \<in> set axis_names
      then Inr (case map_of (deviceAxes s device) axisStr of Some v \<Rightarrow> v | None \<Rightarrow> 0)
      else Inl (KeyError axisStr))"

text \<open>The loop of \<^verbatim>\<open>update\<close> over \<^verbatim>\<open>axesInUse\<close> when no binding is awaited.\<close>
fun pollAxes :: "AxisData list \<Rightarrow> KeyMapper \<Rightarrow> error + KeyMapper" where
  "pollAxes [] s = Inr s"
| "pollAxes (axisData # rest) s =
     (case (case devicePositive axisData of
              Some d \<Rightarrow> map_sum id (max 0) (findAxisValue s d (axis axisData))
            | None \<Rightarrow> Inr 0) of
        Inl e \<Rightarrow> Inl e
      | Inr valuePositive \<Rightarrow>
     (case (case deviceNegative axisData of
              Some d \<Rightarrow> map_sum id (min 0) (findAxisValue s d (axis axisData))
            | None \<Rightarrow> Inr 0) of
        Inl e \<Rightarrow> Inl e
      | Inr valueNegative \<Rightarrow>
     (case handleAxis (keyDescriptionPositive axisData) valuePositive (deadZone axisData) s of
        Inl e \<Rightarrow> Inl e
      | Inr s1 \<Rightarrow>
     (case handleAxis (keyDescriptionNegative axisData) valueNegative (deadZone axisData) s1 of
        Inl e \<Rightarrow> Inl e
      | Inr s2 \<Rightarrow> pollAxes rest s2))))"

text \<open>
  The test of \<^verbatim>\<open>update\<close> on one axis while a binding is awaited: \<open>samples\<close> is
  \<^verbatim>\<open>deviceAxisTestValues[device]\<close>.
\<close>
definition axisMoved :: "(string \<times> real) list \<Rightarrow> string \<Rightarrow> real \<Rightarrow> bool" where
  "axisMoved samples axisID v =
     (case map_of samples axisID of
        None \<Rightarrow> \<bar>v\<bar> > 0.5
      | Some sample \<Rightarrow> \<bar>v - sample\<bar> > 0.3)"

text \<open>The inner loop: the first axis of the device that moved, if any.\<close>
fun scanAxes :: "Device \<Rightarrow> (string \<times> real) list option \<Rightarrow> (string \<times> real) list
    \<Rightarrow> error + (string \<times> real) option" where
  "scanAxes device samples [] = Inr None"
| "scanAxes device samples ((axisID, v) # rest) =
     (if axisID \<noteq> ''none'' then
        (case samples of
           None \<Rightarrow> Inl (KeyError (device_name device))
         | Some smp \<Rightarrow>
             if axisMoved smp axisID v then Inr (Some (axisID, v))
             else scanAxes device samples rest)
      else scanAxes device samples rest)"

text \<open>The outer loop, over the data nodes set up for interception.\<close>
fun scanDevices :: "Device list \<Rightarrow> KeyMapper \<Rightarrow> error + (Device \<times> string \<times> real) option" where
  "scanDevices [] s = Inr None"
| "scanDevices (device # rest) s =
     (case scanAxes device (map_of (deviceAxisTestValues s) device) (deviceAxes s device) of
        Inl e \<Rightarrow> Inl e
      | Inr (Some (axisID, v)) \<Rightarrow> Inr (Some (device, axisID, v))
      | Inr None \<Rightarrow> scanDevices rest s)"

text \<open>\<^verbatim>\<open>str\<close> of a member of \<^verbatim>\<open>InputDevice.Axis\<close>.\<close>
definition str_axis :: "string \<Rightarrow> string" where
  "str_axis axisID = ''Axis.'' @ axisID"

definition update :: "KeyMapper \<Rightarrow> error + KeyMapper" where
  "update s =
     (if bindingDialogueVisible s then
        (case scanDevices (dataNPList s) s of
           Inl e \<Rightarrow> Inl e
         | Inr None \<Rightarrow> Inr s
         | Inr (Some (device, axisID, v)) \<Rightarrow>
             keyRelease (str_axis axisID)
               (keyInterception (Some (getDeviceTypeString (str_device_class (device_class device))))
                  (str_axis axisID) v s))
      else pollAxes (axesInUse s) s)"


subsection \<open>Construction, set-up and hot-plugging\<close>

text \<open>
  The manager as \<^verbatim>\<open>__init__\<close> leaves it, from its arguments and the engine's devices and
  files. The flag \<^verbatim>\<open>bindingDialogueVisible\<close> is first assigned by \<^verbatim>\<open>setup\<close>; until then no
  dialogue exists and the flag is off.
\<close>
definition initKeyMapper :: "string
    \<Rightarrow> (KeySaveData \<Rightarrow> AxisSaveData \<Rightarrow> string \<Rightarrow> Storage \<Rightarrow> string + Storage) option
    \<Rightarrow> (string \<Rightarrow> Storage \<Rightarrow> string + KeySaveData \<times> AxisSaveData) option
    \<Rightarrow> bool \<Rightarrow> bool \<Rightarrow> nat option
    \<Rightarrow> Device list \<Rightarrow> (Device \<Rightarrow> (string \<times> real) list) \<Rightarrow> string list \<Rightarrow> Storage
    \<Rightarrow> KeyMapper" where
  "initKeyMapper file saveCallback loadCallback combinations useNegative stateCallback
       devices readings files stored =
     \<lparr>keys = [], keyBindings = [], keyOrder = [], keyStateCallback = stateCallback,
      acceptKeyCombinations = combinations, negativeValuesForNegativeAxes = useNegative,
      bindingFile = file, bindingFileCustom = file, events = (\<lambda>name. None),
      dataNPList = [], deviceAxisTestValues = [], lastKeyInterception = Some [],
      lastKeyInterceptionDeviceType = None, lastKeyInterceptionValue = 0,
      keyBeingBound = None, currentConflict = None, conflictContinueArgs = None,
      bindingDialogueVisible = False, bindingDialogueShown = False,
      conflictDialogueShown = False, errorDialogueShown = False, errorLabel = [],
      devicesInUse = [], deadZoneDefaultValue = 0.3, axesInUse = [],
      loadMappingCallback = loadCallback, saveMappingCallback = saveCallback,
      storage = stored, connectedDevices = devices, existingFiles = files, deviceAxes = readings,
      callbackLog = []\<rparr>"

text \<open>\<^verbatim>\<open>KeyMapper.setup\<close>, without the construction of the dialogues.\<close>
definition setupKeyMapper :: "KeyMapper \<Rightarrow> error + KeyMapper" where
  "setupKeyMapper s =
     (case loadKeyMapping (s\<lparr>errorDialogueShown := False\<rparr>) of
        Inl e \<Rightarrow> Inl e
      | Inr s1 \<Rightarrow>
          Inr ((saveKeyMapping s1)\<lparr>conflictDialogueShown := False, bindingDialogueShown := False,
                 bindingDialogueVisible := False, lastKeyInterception := None,
                 lastKeyInterceptionDeviceType := None, lastKeyInterceptionValue := 0\<rparr>))"

text \<open>The loop of \<^verbatim>\<open>connectController\<close> over the controls bound to the class of the device.\<close>
fun addUsedDeviceTimes :: "nat \<Rightarrow> string \<Rightarrow> KeyMapper \<Rightarrow> error + KeyMapper" where
  "addUsedDeviceTimes 0 cls s = Inr s"
| "addUsedDeviceTimes (Suc n) cls s =
     (case addUsedDevice cls s of
        Inl e \<Rightarrow> Inl e
      | Inr (device, s') \<Rightarrow> addUsedDeviceTimes n cls s')"

definition connectController :: "Device \<Rightarrow> KeyMapper \<Rightarrow> error + KeyMapper" where
  "connectController controller s =
     (let deviceTypeToAddString = getDeviceTypeString (str_device_class (device_class controller))
      in (case addUsedDeviceTimes
                (length (filter (\<lambda>(k, kb). deviceType kb = Some deviceTypeToAddString)
                           (keyBindings s)))
                (device_class controller) s of
            Inl e \<Rightarrow> Inl e
          | Inr s' \<Rightarrow>
              Inr (if bindingDialogueVisible s' then setupEventsForDevice controller s' else s')))"

definition clearEventsForDevice :: "Device \<Rightarrow> KeyMapper \<Rightarrow> KeyMapper" where
  "clearEventsForDevice device s = s\<lparr>dataNPList := filter (\<lambda>other. other \<noteq> device) (dataNPList s)\<rparr>"

definition disconnectController :: "Device \<Rightarrow> KeyMapper \<Rightarrow> error + KeyMapper" where
  "disconnectController controller s =
     (let s1 = (if bindingDialogueVisible s then clearEventsForDevice controller s else s)
      in if controller \<in> set (devicesInUse s1)
         then removeUsedDevice (Some (device_class controller)) s1
         else Inr s1)"


section \<open>Specification\<close>

subsection \<open>An example manager\<close>

text \<open>Running an operation on an example; an operation that raises leaves it as it was.\<close>
definition run :: "(KeyMapper \<Rightarrow> error + KeyMapper) \<Rightarrow> KeyMapper \<Rightarrow> KeyMapper" where
  "run f s = (case f s of Inr s' \<Rightarrow> s' | Inl e \<Rightarrow> s)"

definition pad :: Device where
  "pad = \<lparr>device_name = ''pad'', device_class = ''gamepad''\<rparr>"

text \<open>A manager with one gamepad connected and three controls registered: a key and the two
  directions of an axis.\<close>
definition demo :: KeyMapper where
  "demo =
     run (addKey ''right'' (Some ''Axis.left_x'') (str_device_class ''gamepad'') KEYMAP_HELD_KEY
            NoCallback 1 None)
      (run (addKey ''left'' (Some ''Axis.left_x'') (str_device_class ''gamepad'') KEYMAP_HELD_KEY
              NoCallback (- 1) None)
        (run (addKey ''jump'' (Some ''space'') (str_device_class ''keyboard'') KEYMAP_HELD_KEY
                NoCallback 0 None)
          (initKeyMapper ''testBindings.btn'' None None False False None [pad]
             (\<lambda>device. [(''left_x'', 0)]) [] [])))"


text \<open>A manager with two controls in different conflict groups.\<close>
definition demoGroups :: KeyMapper where
  "demoGroups =
     run (addKey ''select'' (Some ''enter'') (str_device_class ''keyboard'') KEYMAP_HELD_KEY
            NoCallback 0 (Some 2))
      (run (addKey ''use'' (Some ''e'') (str_device_class ''keyboard'') KEYMAP_EVENT_PRESSED
              (Single 0) 0 (Some 1))
        (initKeyMapper ''testBindings.btn'' None None False False None [pad]
           (\<lambda>device. [(''left_x'', 0)]) [] []))"

text \<open>
  A control conflicts with the candidate of a rebind: it is another control, it holds the
  candidate input, its group mask overlaps the mask of the control being bound and, when the
  input is an axis, an axis entry names it for the direction of the candidate's value.
\<close>
definition conflicting :: "string \<Rightarrow> int \<Rightarrow> string \<Rightarrow> 32 word \<Rightarrow> AxisData list
    \<Rightarrow> string \<Rightarrow> KeyBinding \<Rightarrow> bool" where
  "conflicting candidate v beingBound keyBeingBoundGroup axes k kb \<longleftrightarrow>
     binding kb = Some candidate \<and> k \<noteq> beingBound
     \<and> hasBitsInCommon (groupID kb) keyBeingBoundGroup
     \<and> (is_axis candidate \<longrightarrow>
           (\<exists>a \<in> set axes. (keyDescriptionPositive a = Some k \<and> v > 0)
                           \<or> (keyDescriptionNegative a = Some k \<and> v < 0)))"

text \<open>The device type that \<^verbatim>\<open>keyRelease\<close> gives a candidate that has none.\<close>
definition candidateDeviceType :: "KeyMapper \<Rightarrow> string \<Rightarrow> string" where
  "candidateDeviceType s candidate =
     (case lastKeyInterceptionDeviceType s of
        None \<Rightarrow> if startswith candidate ''mouse''
                then getDeviceTypeString (str_device_class ''mouse'')
                else getDeviceTypeString (str_device_class ''keyboard'')
      | Some d \<Rightarrow> d)"

text \<open>The example managers while a rebind is awaited: the control \<^verbatim>\<open>jump\<close> with the positive
  direction of the axis as candidate, and the control \<^verbatim>\<open>select\<close> with the key of the control
  \<^verbatim>\<open>use\<close> as candidate.\<close>
definition demoAwaitingAxis :: KeyMapper where
  "demoAwaitingAxis =
     keyInterception (Some ''gamepad'') ''Axis.left_x'' 1 (run (getNewBinding ''jump'') demo)"

definition demoAwaitingKey :: KeyMapper where
  "demoAwaitingKey = keyInterception None ''e'' 0 (run (getNewBinding ''select'') demoGroups)"

text \<open>The axes that \<^verbatim>\<open>update\<close> scans while a rebind is awaited, in the order of the scan:
  the devices set up for interception, each with the axes it reports.\<close>
definition awaited_axes :: "KeyMapper \<Rightarrow> (Device \<times> string \<times> real) list" where
  "awaited_axes s =
     concat (map (\<lambda>device. map (Pair device) (deviceAxes s device)) (dataNPList s))"

text \<open>
  An axis has moved: it is not the axis \<^verbatim>\<open>none\<close> and either it has no baseline sample and
  its value exceeds 0.5 in absolute terms, or it has a baseline sample and differs from it by
  more than 0.3.
\<close>
definition moved :: "KeyMapper \<Rightarrow> Device \<times> string \<times> real \<Rightarrow> bool" where
  "moved s = (\<lambda>(device, axisID, v).
     axisID \<noteq> ''none''
     \<and> (case map_of (deviceAxisTestValues s) device of
          None \<Rightarrow> False
        | Some samples \<Rightarrow>
            (case map_of samples axisID of
               None \<Rightarrow> \<bar>v\<bar> > 0.5
             | Some sample \<Rightarrow> \<bar>v - sample\<bar> > 0.3)))"

text \<open>The example manager awaiting a rebind of \<^verbatim>\<open>jump\<close>, opened while the stick was held at
  0.9 on one axis; and the same manager a frame later, when the other axis has moved too.\<close>
definition demoAwaitingHeld :: KeyMapper where
  "demoAwaitingHeld =
     run (getNewBinding ''jump'')
       (demo\<lparr>deviceAxes := (\<lambda>device. [(''left_x'', 0.9), (''left_y'', 0)])\<rparr>)"

definition demoAwaitingMoved :: KeyMapper where
  "demoAwaitingMoved =
     demoAwaitingHeld\<lparr>deviceAxes := (\<lambda>device. [(''left_x'', 0.9), (''left_y'', 0.8)])\<rparr>"

text \<open>The binding of a control, when the control is registered.\<close>
definition binding_of :: "KeyMapper \<Rightarrow> string \<Rightarrow> string option option" where
  "binding_of s k = map_option binding (map_of (keyBindings s) k)"

text \<open>The controls that claim a direction of an axis: control, axis, and whether the
  direction is the positive one.\<close>
definition claimants :: "AxisData list \<Rightarrow> (string \<times> string \<times> bool) set" where
  "claimants axes =
     {(k, axis a, True) | k a. a \<in> set axes \<and> keyDescriptionPositive a = Some k}
     \<union> {(k, axis a, False) | k a. a \<in> set axes \<and> keyDescriptionNegative a = Some k}"

text \<open>What an axis entry says about bindings: the axis and the controls of its two directions.\<close>
definition claim_of :: "AxisData \<Rightarrow> string \<times> string option \<times> string option" where
  "claim_of a = (axis a, keyDescriptionPositive a, keyDescriptionNegative a)"

text \<open>The controls whose binding \<^verbatim>\<open>clearKeyEvent\<close> takes away.\<close>
definition keysToChange :: "string option \<Rightarrow> int \<Rightarrow> KeyMapper \<Rightarrow> string set" where
  "keysToChange bnd direction s =
     (case bnd of
        None \<Rightarrow> {}
      | Some b \<Rightarrow>
          if is_axis b
          then {k. (direction = 1 \<and> (k, drop 5 b, True) \<in> claimants (axesInUse s))
                 \<or> (direction = - 1 \<and> (k, drop 5 b, False) \<in> claimants (axesInUse s))}
          else {k. \<exists>kb. (k, kb) \<in> set (keyBindings s) \<and> binding kb = Some b})"

text \<open>Every device type recorded for a control names a member of \<^verbatim>\<open>InputDevice.DeviceClass\<close>.\<close>
definition valid_device_types :: "(string \<times> KeyBinding) list \<Rightarrow> bool" where
  "valid_device_types kbs \<longleftrightarrow>
     (\<forall>(k, kb) \<in> set kbs. case deviceType kb of None \<Rightarrow> True | Some dt \<Rightarrow> dt \<in> set device_classes)"

text \<open>
  The callback that the binding type requires is missing. The pressed and the released type
  require a single callback; the pressed-and-released type requires a single callback or a
  list or tuple that begins with two callbacks; the held type requires none.
\<close>
fun callback_missing :: "KeyType \<Rightarrow> Callback \<Rightarrow> bool" where
  "callback_missing KEYMAP_HELD_KEY cb = False"
| "callback_missing KEYMAP_EVENT_PRESSED cb = (case cb of Single f \<Rightarrow> False | _ \<Rightarrow> True)"
| "callback_missing KEYMAP_EVENT_RELEASED cb = (case cb of Single f \<Rightarrow> False | _ \<Rightarrow> True)"
| "callback_missing KEYMAP_EVENT_PRESSED_AND_RELEASED NoCallback = True"
| "callback_missing KEYMAP_EVENT_PRESSED_AND_RELEASED (Single f) = False"
| "callback_missing KEYMAP_EVENT_PRESSED_AND_RELEASED (CallbackList (Some f # Some g # rest)) = False"
| "callback_missing KEYMAP_EVENT_PRESSED_AND_RELEASED (CallbackList cbs) = True"

text \<open>
  A list or tuple given as the callback of the pressed or the released type. It is not
  \<^verbatim>\<open>None\<close>, so it passes the check of \<^verbatim>\<open>bindKey\<close>; it is not the single callback that the type
  requires.
\<close>
fun list_for_single :: "KeyType \<Rightarrow> Callback \<Rightarrow> bool" where
  "list_for_single KEYMAP_EVENT_PRESSED (CallbackList cbs) = True"
| "list_for_single KEYMAP_EVENT_RELEASED (CallbackList cbs) = True"
| "list_for_single type cb = False"

text \<open>Every control that claims a direction of an axis is registered.\<close>
definition claimants_registered :: "KeyMapper \<Rightarrow> bool" where
  "claimants_registered s \<longleftrightarrow>
     (\<forall>a \<in> set (axesInUse s).
        (case keyDescriptionPositive a of None \<Rightarrow> True | Some k \<Rightarrow> k \<in> set (map fst (keyBindings s)))
        \<and> (case keyDescriptionNegative a of None \<Rightarrow> True | Some k \<Rightarrow> k \<in> set (map fst (keyBindings s))))"









text \<open>The example manager with a load callback that returns no key record and one axis
  record.\<close>
definition demoAxisOnlyProfile :: KeyMapper where
  "demoAxisOnlyProfile =
     demo\<lparr>loadMappingCallback := Some (\<lambda>file stored. Inr ([], [(''left_y'', 0.2)]))\<rparr>"


section \<open>Properties\<close>

subsection \<open>Dictionaries: modifying an entry\<close>

lemma map_of_modify:
  "map_of (modify k f al) k' = (if k' = k then map_option f (map_of al k) else map_of al k')"
  by (induction al) auto

lemma map_fst_modify: "map fst (modify k f al) = map fst al"
  by (induction al) auto

lemma set_modify_subset:
  "set (modify k f al) \<subseteq> set al \<union> (\<lambda>(k, v). (k, f v)) ` set al"
  by (induction al) (auto split: if_splits)

lemma map_of_assign: "map_of (assign k v al) = (map_of al)(k \<mapsto> v)"
  by (induction al) auto

lemma modify_id:
  "map_of al k = Some v \<Longrightarrow> f v = v \<Longrightarrow> modify k f al = al"
  by (induction al) (auto split: if_splits)

lemma modify_modify:
  "modify k f (modify k g al) = modify k (f \<circ> g) al"
  by (induction al) auto

subsection \<open>Devices: only the device handles change\<close>

lemma claimants_map_cong:
  assumes "\<And>a. axis (f a) = axis a"
    and "\<And>a. keyDescriptionPositive (f a) = keyDescriptionPositive a"
    and "\<And>a. keyDescriptionNegative (f a) = keyDescriptionNegative a"
  shows "claimants (map f axes) = claimants axes"
  unfolding claimants_def using assms by (auto simp: image_iff) metis+

lemma claimed_map_cong:
  assumes "\<And>a. keyDescriptionPositive (f a) = keyDescriptionPositive a"
    and "\<And>a. keyDescriptionNegative (f a) = keyDescriptionNegative a"
  shows "(\<forall>a \<in> set (map f axes). claimed a) \<longleftrightarrow> (\<forall>a \<in> set axes. claimed a)"
  using assms by (simp add: claimed_def)

lemma removeDevice_frame:
  "keyBindings (removeDevice d s) = keyBindings s"
  "claimants (axesInUse (removeDevice d s)) = claimants (axesInUse s)"
  "(\<forall>a \<in> set (axesInUse (removeDevice d s)). claimed a) \<longleftrightarrow> (\<forall>a \<in> set (axesInUse s). claimed a)"
  "events (removeDevice d s) = events s"
  "deadZoneDefaultValue (removeDevice d s) = deadZoneDefaultValue s"
  by (simp_all add: removeDevice_def claimants_map_cong claimed_def)

lemma fold_removeDevice_frame:
  "keyBindings (fold removeDevice ds s) = keyBindings s"
  "claimants (axesInUse (fold removeDevice ds s)) = claimants (axesInUse s)"
  "(\<forall>a \<in> set (axesInUse (fold removeDevice ds s)). claimed a) \<longleftrightarrow> (\<forall>a \<in> set (axesInUse s). claimed a)"
  "events (fold removeDevice ds s) = events s"
  "deadZoneDefaultValue (fold removeDevice ds s) = deadZoneDefaultValue s"
  by (induction ds arbitrary: s) (simp_all add: removeDevice_frame)

subsection \<open>Axis claims\<close>

lemma claimants_iff:
  "(k, ax, p) \<in> claimants axes \<longleftrightarrow>
     (\<exists>a \<in> set axes. axis a = ax
        \<and> (if p then keyDescriptionPositive a = Some k else keyDescriptionNegative a = Some k))"
  unfolding claimants_def by (cases p) auto

lemma claimants_registered_iff:
  "claimants_registered s \<longleftrightarrow>
     (\<forall>(k, a, p) \<in> claimants (axesInUse s). k \<in> fst ` set (keyBindings s))"
proof
  assume r: "claimants_registered s"
  show "\<forall>(k, a, p) \<in> claimants (axesInUse s). k \<in> fst ` set (keyBindings s)"
  proof (clarify)
    fix k ax p assume "(k, ax, p) \<in> claimants (axesInUse s)"
    then obtain a where a: "a \<in> set (axesInUse s)"
      "if p then keyDescriptionPositive a = Some k else keyDescriptionNegative a = Some k"
      unfolding claimants_iff by blast
    from r a(1) have
      "(case keyDescriptionPositive a of None \<Rightarrow> True | Some k \<Rightarrow> k \<in> set (map fst (keyBindings s)))"
      "(case keyDescriptionNegative a of None \<Rightarrow> True | Some k \<Rightarrow> k \<in> set (map fst (keyBindings s)))"
      unfolding claimants_registered_def by blast+
    with a(2) show "k \<in> fst ` set (keyBindings s)" by (cases p) simp_all
  qed
next
  assume r: "\<forall>(k, a, p) \<in> claimants (axesInUse s). k \<in> fst ` set (keyBindings s)"
  show "claimants_registered s"
    unfolding claimants_registered_def
  proof (intro ballI conjI)
    fix a assume a: "a \<in> set (axesInUse s)"
    show "case keyDescriptionPositive a of None \<Rightarrow> True | Some k \<Rightarrow> k \<in> set (map fst (keyBindings s))"
    proof (cases "keyDescriptionPositive a")
      case (Some k)
      with a have "(k, axis a, True) \<in> claimants (axesInUse s)" unfolding claimants_iff by auto
      with r Some show ?thesis by auto
    qed simp
    show "case keyDescriptionNegative a of None \<Rightarrow> True | Some k \<Rightarrow> k \<in> set (map fst (keyBindings s))"
    proof (cases "keyDescriptionNegative a")
      case (Some k)
      with a have "(k, axis a, False) \<in> claimants (axesInUse s)" unfolding claimants_iff by auto
      with r Some show ?thesis by auto
    qed simp
  qed
qed

lemma valid_device_types_iff:
  "valid_device_types kbs \<longleftrightarrow>
     (\<forall>(k, kb) \<in> set kbs. \<forall>dt. deviceType kb = Some dt \<longrightarrow> dt \<in> set device_classes)"
  unfolding valid_device_types_def by (auto split: option.splits)

lemma claimants_iff_claim:
  "(k, ax, p) \<in> claimants axes \<longleftrightarrow>
     (\<exists>c \<in> set (map claim_of axes). fst c = ax
        \<and> (if p then fst (snd c) = Some k else snd (snd c) = Some k))"
  by (simp add: claimants_iff claim_of_def)

lemma claimants_cong:
  assumes "map claim_of axes' = map claim_of axes"
  shows "claimants axes' = claimants axes"
proof -
  have "\<And>k ax p. (k, ax, p) \<in> claimants axes' \<longleftrightarrow> (k, ax, p) \<in> claimants axes"
    by (simp only: claimants_iff_claim assms)
  then show ?thesis by auto
qed

lemma claimed_claim:
  "claimed a \<longleftrightarrow> (fst (snd (claim_of a)) \<noteq> None \<or> snd (snd (claim_of a)) \<noteq> None)"
  by (simp add: claimed_def claim_of_def)

lemma all_claimed_claim:
  "(\<forall>a \<in> set axes. claimed a) \<longleftrightarrow>
     (\<forall>c \<in> set (map claim_of axes). fst (snd c) \<noteq> None \<or> snd (snd c) \<noteq> None)"
  by (simp add: claimed_claim)

lemma all_claimed_cong:
  assumes "map claim_of axes' = map claim_of axes"
  shows "(\<forall>a \<in> set axes'. claimed a) \<longleftrightarrow> (\<forall>a \<in> set axes. claimed a)"
  by (simp only: all_claimed_claim assms)

lemma claimants_filter_claimed: "claimants (filter claimed axes) = claimants axes"
proof -
  have "\<And>k ax p. (k, ax, p) \<in> claimants (filter claimed axes) \<longleftrightarrow> (k, ax, p) \<in> claimants axes"
    unfolding claimants_iff claimed_def by (case_tac p) auto
  then show ?thesis by auto
qed

lemma removeDevice_claims: "map claim_of (axesInUse (removeDevice d s)) = map claim_of (axesInUse s)"
  by (simp add: removeDevice_def claim_of_def)

lemma fold_removeDevice_claims:
  "map claim_of (axesInUse (fold removeDevice ds s)) = map claim_of (axesInUse s)"
  by (induction ds arbitrary: s) (simp_all add: removeDevice_claims)

lemma removeUsedDevice_frame:
  assumes "removeUsedDevice dt s = Inr s'"
  shows "keyBindings s' = keyBindings s"
    and "map claim_of (axesInUse s') = map claim_of (axesInUse s)"
    and "events s' = events s"
    and "deadZoneDefaultValue s' = deadZoneDefaultValue s"
  using assms
  by (auto simp: removeUsedDevice_def fold_removeDevice_frame fold_removeDevice_claims
      split: option.splits sum.splits if_splits)

lemma removeUsedDevice_ok:
  "n \<in> set device_classes \<Longrightarrow> \<exists>s'. removeUsedDevice (Some n) s = Inr s'"
  by (simp add: removeUsedDevice_def eval_device_class_def)

lemma removeUnusedDevices_frame:
  assumes "removeUnusedDevices dts bound s = Inr s'"
  shows "keyBindings s' = keyBindings s \<and> map claim_of (axesInUse s') = map claim_of (axesInUse s)
         \<and> events s' = events s \<and> deadZoneDefaultValue s' = deadZoneDefaultValue s"
  using assms
proof (induction dts arbitrary: s)
  case Nil
  then show ?case by simp
next
  case (Cons dt dts)
  show ?case
  proof (cases "dt \<in> set bound")
    case True
    with Cons show ?thesis by simp
  next
    case False
    with Cons.prems obtain s1 where s1: "removeUsedDevice dt s = Inr s1"
      and rest: "removeUnusedDevices dts bound s1 = Inr s'"
      by (auto split: sum.splits)
    from Cons.IH [OF rest] removeUsedDevice_frame [OF s1] show ?thesis by simp
  qed
qed

lemma removeUnusedDevices_ok:
  assumes "\<forall>dt \<in> set dts. dt \<in> set bound \<or> (\<exists>n. dt = Some n \<and> n \<in> set device_classes)"
  shows "\<exists>s'. removeUnusedDevices dts bound s = Inr s'"
  using assms
proof (induction dts arbitrary: s)
  case Nil
  then show ?case by simp
next
  case (Cons dt dts)
  show ?case
  proof (cases "dt \<in> set bound")
    case True
    with Cons show ?thesis by simp
  next
    case False
    with Cons.prems obtain n where "dt = Some n" "n \<in> set device_classes" by auto
    with removeUsedDevice_ok obtain s1 where "removeUsedDevice dt s = Inr s1" by blast
    with False Cons show ?thesis by simp
  qed
qed

subsection \<open>Unbinding controls\<close>

lemma unbound_unbound [simp]: "unbound (unbound kb) = unbound kb"
  by (simp add: unbound_def)

lemma unbindKeys_keys:
  "unbindKeys ks kbs = Inr (dts, kbs') \<Longrightarrow> map fst kbs' = map fst kbs"
  by (induction ks arbitrary: kbs dts) (auto split: option.splits sum.splits simp: map_fst_modify)

lemma unbindKeys_map_of:
  "unbindKeys ks kbs = Inr (dts, kbs') \<Longrightarrow>
     map_of kbs' k = (if k \<in> set ks then map_option unbound (map_of kbs k) else map_of kbs k)"
proof (induction ks arbitrary: kbs dts)
  case Nil
  then show ?case by simp
next
  case (Cons key ks)
  from Cons.prems obtain kb dts1 where kb: "map_of kbs key = Some kb"
    and rest: "unbindKeys ks (modify key unbound kbs) = Inr (dts1, kbs')"
    by (auto split: option.splits sum.splits)
  from Cons.IH [OF rest] show ?case
    by (auto simp: map_of_modify option.map_comp comp_def)
qed

lemma unbindKeys_ok:
  "set ks \<subseteq> fst ` set kbs \<Longrightarrow> \<exists>dts kbs'. unbindKeys ks kbs = Inr (dts, kbs')"
proof (induction ks arbitrary: kbs)
  case Nil
  then show ?case by simp
next
  case (Cons key ks)
  from Cons.prems obtain kb where kb: "map_of kbs key = Some kb"
    by (cases "map_of kbs key") (auto simp: map_of_eq_None_iff)
  have "fst ` set (modify key unbound kbs) = fst ` set kbs"
    by (metis map_fst_modify set_map)
  with Cons.prems have "set ks \<subseteq> fst ` set (modify key unbound kbs)" by simp
  from Cons.IH [OF this] kb show ?case by auto
qed

lemma valid_device_types_modify:
  assumes "valid_device_types kbs"
    and "\<And>kb. deviceType (f kb) = None \<or> deviceType (f kb) = deviceType kb
               \<or> (\<exists>n. deviceType (f kb) = Some n \<and> n \<in> set device_classes)"
  shows "valid_device_types (modify k f kbs)"
  unfolding valid_device_types_iff
proof (clarify)
  fix k' kb' dt
  assume mem: "(k', kb') \<in> set (modify k f kbs)" and dt: "deviceType kb' = Some dt"
  from mem set_modify_subset [of k f kbs]
  consider "(k', kb') \<in> set kbs" | kb where "(k', kb) \<in> set kbs" "kb' = f kb"
    by auto
  then show "dt \<in> set device_classes"
  proof cases
    case 1
    with assms(1) dt show ?thesis by (auto simp: valid_device_types_iff)
  next
    case 2
    with assms(2) [of kb] dt assms(1) show ?thesis by (auto simp: valid_device_types_iff)
  qed
qed

lemma unbindKeys_valid:
  "valid_device_types kbs \<Longrightarrow> unbindKeys ks kbs = Inr (dts, kbs') \<Longrightarrow>
     (\<forall>n. Some n \<in> set dts \<longrightarrow> n \<in> set device_classes) \<and> valid_device_types kbs'"
proof (induction ks arbitrary: kbs dts)
  case Nil
  then show ?case by simp
next
  case (Cons key ks)
  from Cons.prems obtain kb dts1 where kb: "map_of kbs key = Some kb"
    and rest: "unbindKeys ks (modify key unbound kbs) = Inr (dts1, kbs')"
    and dts: "dts = deviceType kb # dts1"
    by (auto split: option.splits sum.splits)
  have v: "valid_device_types (modify key unbound kbs)"
    by (rule valid_device_types_modify [OF Cons.prems(1)]) (simp add: unbound_def)
  from kb have "(key, kb) \<in> set kbs" by (rule map_of_SomeD)
  with Cons.prems(1) have "\<forall>n. deviceType kb = Some n \<longrightarrow> n \<in> set device_classes"
    by (auto simp: valid_device_types_iff)
  with Cons.IH [OF v rest] dts show ?case by auto
qed

lemma unbindKeys_None_bound:
  assumes "unbindKeys ks kbs = Inr (dts, kbs')" and "dts \<noteq> []"
  shows "None \<in> set (map (\<lambda>(k, kb). deviceType kb) kbs')"
proof -
  from assms obtain key rest where ks: "ks = key # rest" by (cases ks) auto
  with assms(1) obtain kb where kb: "map_of kbs key = Some kb"
    by (auto split: option.splits)
  from unbindKeys_map_of [OF assms(1), of key] ks kb
  have "map_of kbs' key = Some (unbound kb)" by simp
  then have "(key, unbound kb) \<in> set kbs'" by (rule map_of_SomeD)
  then have "(\<lambda>(k, kb). deviceType kb) (key, unbound kb) \<in> (\<lambda>(k, kb). deviceType kb) ` set kbs'"
    by (rule imageI)
  then show ?thesis by (simp add: unbound_def)
qed

subsection \<open>Clearing the direction of an axis\<close>

lemma clearAxisEntry_fst:
  "fst (clearAxisEntry bs d a) =
     (if axis a = bs then
        if d = - 1 then keyDescriptionNegative a
        else if d = 1 then keyDescriptionPositive a else None
      else None)"
  by (simp add: clearAxisEntry_def split: option.splits)

lemma clearAxisEntry_snd:
  "axis (snd (clearAxisEntry bs d a)) = axis a"
  "keyDescriptionPositive (snd (clearAxisEntry bs d a)) =
     (if axis a = bs \<and> d = 1 then None else keyDescriptionPositive a)"
  "keyDescriptionNegative (snd (clearAxisEntry bs d a)) =
     (if axis a = bs \<and> d = - 1 then None else keyDescriptionNegative a)"
  by (simp_all add: clearAxisEntry_def split: option.splits)

lemma clearAxisEntries_snd:
  "snd (clearAxisEntries bs d axes) = map (\<lambda>a. snd (clearAxisEntry bs d a)) axes"
  by (induction axes) (simp_all add: case_prod_beta)

lemma clearAxisEntries_fst:
  "set (fst (clearAxisEntries bs d axes)) = {k. \<exists>a \<in> set axes. fst (clearAxisEntry bs d a) = Some k}"
proof (induction axes)
  case Nil
  then show ?case by simp
next
  case (Cons a axes)
  show ?case
  proof (cases "fst (clearAxisEntry bs d a)")
    case None
    with Cons show ?thesis by (simp add: case_prod_beta)
  next
    case (Some key)
    with Cons show ?thesis by (simp add: case_prod_beta) blast
  qed
qed

lemma clearAxisEntries_keys:
  "set (fst (clearAxisEntries bs d axes)) =
     {k. (d = 1 \<and> (k, bs, True) \<in> claimants axes) \<or> (d = - 1 \<and> (k, bs, False) \<in> claimants axes)}"
  unfolding clearAxisEntries_fst claimants_iff clearAxisEntry_fst
  by (rule Collect_cong) (auto split: if_splits)

lemma clearAxisEntries_claimants:
  "(k, ax, p) \<in> claimants (snd (clearAxisEntries bs d axes)) \<longleftrightarrow>
     (k, ax, p) \<in> claimants axes \<and> \<not> (ax = bs \<and> ((p \<and> d = 1) \<or> (\<not> p \<and> d = - 1)))"
  unfolding clearAxisEntries_snd claimants_iff
  by (cases p) (auto simp: clearAxisEntry_snd split: if_splits)

lemma nonaxis_keys:
  "set (map fst (filter (\<lambda>(k, kb). binding kb = Some b) kbs)) =
     {k. \<exists>kb. (k, kb) \<in> set kbs \<and> binding kb = Some b}"
  by (induction kbs) (auto simp del: set_map)

text \<open>What a successful \<^verbatim>\<open>clearKeyEvent\<close> leaves.\<close>
lemma clearKeyEvent_result:
  assumes "clearKeyEvent bnd d s = Inr s'"
  shows "map fst (keyBindings s') = map fst (keyBindings s)"
    and "map_of (keyBindings s') k =
           (if k \<in> keysToChange bnd d s then map_option unbound (map_of (keyBindings s) k)
            else map_of (keyBindings s) k)"
    and "(k, ax, p) \<in> claimants (axesInUse s') \<longleftrightarrow>
           (k, ax, p) \<in> claimants (axesInUse s)
           \<and> \<not> (\<exists>b. bnd = Some b \<and> is_axis b \<and> ax = drop 5 b
                     \<and> ((p \<and> d = 1) \<or> (\<not> p \<and> d = - 1)))"
    and "bnd \<noteq> None \<Longrightarrow> \<forall>a \<in> set (axesInUse s'). claimed a"
    and "bnd = None \<Longrightarrow> s' = s"
    and "deadZoneDefaultValue s' = deadZoneDefaultValue s"
proof -
  show n: "bnd = None \<Longrightarrow> s' = s" using assms by (simp add: clearKeyEvent_def)
  have "map fst (keyBindings s') = map fst (keyBindings s)
    \<and> map_of (keyBindings s') k =
           (if k \<in> keysToChange bnd d s then map_option unbound (map_of (keyBindings s) k)
            else map_of (keyBindings s) k)
    \<and> ((k, ax, p) \<in> claimants (axesInUse s') \<longleftrightarrow>
           (k, ax, p) \<in> claimants (axesInUse s)
           \<and> \<not> (\<exists>b. bnd = Some b \<and> is_axis b \<and> ax = drop 5 b
                     \<and> ((p \<and> d = 1) \<or> (\<not> p \<and> d = - 1))))
    \<and> (bnd \<noteq> None \<longrightarrow> (\<forall>a \<in> set (axesInUse s'). claimed a))
    \<and> deadZoneDefaultValue s' = deadZoneDefaultValue s"
  proof (cases bnd)
    case None
    with n show ?thesis by (simp add: keysToChange_def)
  next
    case (Some b)
    define ks where "ks = (if is_axis b then fst (clearAxisEntries (drop 5 b) d (axesInUse s))
        else map fst (filter (\<lambda>(k, kb). binding kb = Some b) (keyBindings s)))"
    define axes where "axes = (if is_axis b then snd (clearAxisEntries (drop 5 b) d (axesInUse s))
        else axesInUse s)"
    from assms Some obtain dts kbs s1 where
      u: "unbindKeys ks (keyBindings s) = Inr (dts, kbs)"
      and r: "removeUnusedDevices dts (map (\<lambda>(k, kb). deviceType kb) kbs)
                (s\<lparr>axesInUse := axes, keyBindings := kbs\<rparr>) = Inr s1"
      and s': "s' = s1\<lparr>events := ignore (b @ ''-up'') (ignore b (events s1)),
                       axesInUse := filter claimed (axesInUse s1)\<rparr>"
      unfolding clearKeyEvent_def ks_def axes_def
      by (auto split: sum.splits prod.splits if_splits)
    from removeUnusedDevices_frame [OF r]
    have f: "keyBindings s1 = kbs" "map claim_of (axesInUse s1) = map claim_of axes"
      "deadZoneDefaultValue s1 = deadZoneDefaultValue s"
      by simp_all
    have ksset: "set ks = keysToChange bnd d s"
    proof (cases "is_axis b")
      case True
      then show ?thesis
        unfolding ks_def keysToChange_def Some by (simp only: clearAxisEntries_keys if_True option.case)
    next
      case False
      then show ?thesis
        unfolding ks_def keysToChange_def Some by (simp only: nonaxis_keys if_False option.case)
    qed
    have c1: "claimants (axesInUse s') = claimants axes"
      using s' claimants_cong [OF f(2)] by (simp add: claimants_filter_claimed)
    have c2: "(k, ax, p) \<in> claimants axes \<longleftrightarrow>
           (k, ax, p) \<in> claimants (axesInUse s)
           \<and> \<not> (is_axis b \<and> ax = drop 5 b \<and> ((p \<and> d = 1) \<or> (\<not> p \<and> d = - 1)))"
      unfolding axes_def by (simp add: clearAxisEntries_claimants)
    show ?thesis
      using unbindKeys_keys [OF u] unbindKeys_map_of [OF u, of k] f(1,3) s' ksset c1 c2 Some
      by simp
  qed
  then show "map fst (keyBindings s') = map fst (keyBindings s)"
    and "map_of (keyBindings s') k =
           (if k \<in> keysToChange bnd d s then map_option unbound (map_of (keyBindings s) k)
            else map_of (keyBindings s) k)"
    and "(k, ax, p) \<in> claimants (axesInUse s') \<longleftrightarrow>
           (k, ax, p) \<in> claimants (axesInUse s)
           \<and> \<not> (\<exists>b. bnd = Some b \<and> is_axis b \<and> ax = drop 5 b
                     \<and> ((p \<and> d = 1) \<or> (\<not> p \<and> d = - 1)))"
    and "bnd \<noteq> None \<Longrightarrow> \<forall>a \<in> set (axesInUse s'). claimed a"
    and "deadZoneDefaultValue s' = deadZoneDefaultValue s"
    by simp_all
qed

lemma keysToChange_registered:
  assumes "claimants_registered s"
  shows "keysToChange bnd d s \<subseteq> fst ` set (keyBindings s)"
proof
  fix k assume k: "k \<in> keysToChange bnd d s"
  show "k \<in> fst ` set (keyBindings s)"
  proof (cases bnd)
    case None
    with k show ?thesis by (simp add: keysToChange_def)
  next
    case (Some b)
    show ?thesis
    proof (cases "is_axis b")
      case True
      with k Some obtain p where "(k, drop 5 b, p) \<in> claimants (axesInUse s)"
        by (auto simp: keysToChange_def)
      with assms show ?thesis unfolding claimants_registered_iff by blast
    next
      case False
      with k Some obtain kb where "(k, kb) \<in> set (keyBindings s)"
        by (auto simp: keysToChange_def)
      then show ?thesis by force
    qed
  qed
qed

text \<open>\<^verbatim>\<open>clearKeyEvent\<close> returns when every claimant of an axis is registered and every
  recorded device type is a device class.\<close>
lemma clearKeyEvent_ok:
  assumes reg: "claimants_registered s" and val: "valid_device_types (keyBindings s)"
  shows "\<exists>s'. clearKeyEvent bnd d s = Inr s'"
proof (cases bnd)
  case None
  then show ?thesis by (simp add: clearKeyEvent_def)
next
  case (Some b)
  define ks where "ks = (if is_axis b then fst (clearAxisEntries (drop 5 b) d (axesInUse s))
      else map fst (filter (\<lambda>(k, kb). binding kb = Some b) (keyBindings s)))"
  define axes where "axes = (if is_axis b then snd (clearAxisEntries (drop 5 b) d (axesInUse s))
      else axesInUse s)"
  have ksset: "set ks = keysToChange bnd d s"
  proof (cases "is_axis b")
    case True
    then show ?thesis
      unfolding ks_def keysToChange_def Some by (simp only: clearAxisEntries_keys if_True option.case)
  next
    case False
    then show ?thesis
      unfolding ks_def keysToChange_def Some by (simp only: nonaxis_keys if_False option.case)
  qed
  with keysToChange_registered [OF reg] have "set ks \<subseteq> fst ` set (keyBindings s)" by simp
  from unbindKeys_ok [OF this] obtain dts kbs where
    u: "unbindKeys ks (keyBindings s) = Inr (dts, kbs)" by blast
  from unbindKeys_valid [OF val u]
  have dv: "\<forall>n. Some n \<in> set dts \<longrightarrow> n \<in> set device_classes" by simp
  have "\<forall>dt \<in> set dts. dt \<in> set (map (\<lambda>(k, kb). deviceType kb) kbs)
          \<or> (\<exists>n. dt = Some n \<and> n \<in> set device_classes)"
  proof
    fix dt assume dt: "dt \<in> set dts"
    then have "dts \<noteq> []" by auto
    from unbindKeys_None_bound [OF u this] dv dt
    show "dt \<in> set (map (\<lambda>(k, kb). deviceType kb) kbs)
          \<or> (\<exists>n. dt = Some n \<and> n \<in> set device_classes)"
      by (cases dt) auto
  qed
  from removeUnusedDevices_ok [OF this] obtain s1 where
    "removeUnusedDevices dts (map (\<lambda>(k, kb). deviceType kb) kbs)
       (s\<lparr>axesInUse := axes, keyBindings := kbs\<rparr>) = Inr s1" by blast
  with u show ?thesis
    unfolding clearKeyEvent_def Some ks_def [symmetric] axes_def [symmetric]
    by (cases "is_axis b") (simp_all add: ks_def axes_def case_prod_beta)
qed

lemma clearKeyEvent_valid:
  assumes "clearKeyEvent bnd d s = Inr s'" and val: "valid_device_types (keyBindings s)"
  shows "valid_device_types (keyBindings s')"
proof (cases bnd)
  case None
  with assms show ?thesis by (simp add: clearKeyEvent_def)
next
  case (Some b)
  from assms(1) Some obtain ks axes dts kbs s1 where
    u: "unbindKeys ks (keyBindings s) = Inr (dts, kbs)"
    and r: "removeUnusedDevices dts (map (\<lambda>(k, kb). deviceType kb) kbs)
              (s\<lparr>axesInUse := axes, keyBindings := kbs\<rparr>) = Inr s1"
    and s': "s' = s1\<lparr>events := ignore (b @ ''-up'') (ignore b (events s1)),
                     axesInUse := filter claimed (axesInUse s1)\<rparr>"
    unfolding clearKeyEvent_def
    by (auto split: sum.splits prod.splits if_splits)
  from removeUnusedDevices_frame [OF r] s' have "keyBindings s' = kbs" by simp
  with unbindKeys_valid [OF val u] show ?thesis by simp
qed

lemma clearKeyEvent_registered:
  assumes "clearKeyEvent bnd d s = Inr s'" and reg: "claimants_registered s"
  shows "claimants_registered s'"
proof -
  from clearKeyEvent_result(1) [OF assms(1)]
  have keys: "fst ` set (keyBindings s') = fst ` set (keyBindings s)" by (metis set_map)
  show "claimants_registered s'"
    unfolding claimants_registered_iff keys
    using reg clearKeyEvent_result(3) [OF assms(1)]
    unfolding claimants_registered_iff by blast
qed

subsection \<open>Taking a device into use\<close>

lemma addUsedDevice_frame:
  assumes "addUsedDevice dt s = Inr (dev, s')"
  shows "keyBindings s' = keyBindings s"
    and "map claim_of (axesInUse s') = map claim_of (axesInUse s)"
    and "deadZoneDefaultValue s' = deadZoneDefaultValue s"
  using assms
  by (auto simp: addUsedDevice_def claim_of_def Let_def
      split: sum.splits option.splits list.splits)

lemma addUsedDevice_ok:
  "dt \<in> set device_classes \<Longrightarrow> \<exists>dev s'. addUsedDevice dt s = Inr (dev, s')"
  by (auto simp: addUsedDevice_def eval_device_class_def Let_def split: option.splits list.splits)

subsection \<open>Subscribing the handlers\<close>

lemma callback_missing_list:
  "callback_missing KEYMAP_EVENT_PRESSED_AND_RELEASED (CallbackList cbs)
     \<longleftrightarrow> length cbs < 2 \<or> cbs ! 0 = None \<or> cbs ! 1 = None"
proof (cases cbs)
  case Nil
  then show ?thesis by simp
next
  case (Cons c1 rest)
  show ?thesis
  proof (cases rest)
    case Nil
    with Cons show ?thesis by (cases c1) simp_all
  next
    case (Cons c2 rest2)
    with \<open>cbs = c1 # rest\<close> show ?thesis by (cases c1; cases c2) simp_all
  qed
qed

text \<open>The subscriptions raise when the callback is missing, but for a list or tuple given for
  the pressed or the released type with no input to subscribe to.\<close>
lemma subscribe_raises_iff:
  "isl (subscribe keyDesc bnd type cb ev)
     \<longleftrightarrow> callback_missing type cb \<and> (list_for_single type cb \<longrightarrow> bnd \<noteq> None)"
proof (cases type)
  case KEYMAP_EVENT_PRESSED_AND_RELEASED
  show ?thesis
  proof (cases cb)
    case (CallbackList cbs)
    show ?thesis
      unfolding KEYMAP_EVENT_PRESSED_AND_RELEASED CallbackList callback_missing_list
      by (simp add: subscribe_def split: option.splits)
  qed (simp_all add: KEYMAP_EVENT_PRESSED_AND_RELEASED subscribe_def acceptCallback_def
         split: option.splits)
qed (cases cb; simp add: subscribe_def acceptCallback_def split: option.splits)+

subsection \<open>Claiming the direction of an axis\<close>

lemma claimAxisEntry_fields:
  "axis (claimAxisEntry kd dev dt d a) = axis a"
  "keyDescriptionPositive (claimAxisEntry kd dev dt d a) =
     (if d > 0 then Some kd else keyDescriptionPositive a)"
  "keyDescriptionNegative (claimAxisEntry kd dev dt d a) =
     (if d < 0 then Some kd else keyDescriptionNegative a)"
  by (simp_all add: claimAxisEntry_def)

lemma updateAxes_claimants:
  assumes "(k, ax, p) \<in> claimants (updateAxes bs kd dev dt d dz axes)"
  shows "(k, ax, p) \<in> claimants axes \<or> (k = kd \<and> ax = bs \<and> (if p then d > 0 else d < 0))"
  using assms unfolding updateAxes_def Let_def claimants_iff
  by (cases p) (auto simp: claimAxisEntry_fields newAxisData_def split: if_splits)

lemma updateAxes_claimed:
  assumes "\<forall>a \<in> set axes. claimed a" and "d \<noteq> 0"
  shows "\<forall>a \<in> set (updateAxes bs kd dev dt d dz axes). claimed a"
  using assms unfolding updateAxes_def Let_def claimed_def
  by (auto simp: claimAxisEntry_fields split: if_splits)

subsection \<open>Setting a binding\<close>

lemma bindKey_result:
  assumes "bindKey kd bnd type cb dt d s = Inr s'"
  obtains s1 old s2 where
    "clearKeyEvent bnd d s = Inr s1"
    "map_of (keyBindings s1) kd = Some old"
    "clearKeyEvent (binding old) (axisDirection old) s1 = Inr s2"
    "keyBindings s' = modify kd (\<lambda>kb. kb\<lparr>binding := bnd, deviceType := dt, axisDirection := d\<rparr>)
                        (keyBindings s2)"
    "\<And>k ax p. (k, ax, p) \<in> claimants (axesInUse s') \<Longrightarrow>
        (k, ax, p) \<in> claimants (axesInUse s2)
        \<or> (k = kd \<and> (\<exists>b. bnd = Some b \<and> is_axis b \<and> ax = drop 5 b) \<and> dt \<noteq> None
             \<and> (if p then d > 0 else d < 0))"
    "(\<forall>a \<in> set (axesInUse s2). claimed a) \<Longrightarrow>
       \<not> (\<exists>b. bnd = Some b \<and> is_axis b \<and> dt \<noteq> None \<and> d = 0) \<Longrightarrow>
       (\<forall>a \<in> set (axesInUse s'). claimed a)"
proof -
  from assms obtain s1 old s2 ev where
    c1: "clearKeyEvent bnd d s = Inr s1"
    and old: "map_of (keyBindings s1) kd = Some old"
    and c2: "clearKeyEvent (binding old) (axisDirection old) s1 = Inr s2"
    and sub: "subscribe kd bnd type cb (events s2) = Inr ev"
    unfolding bindKey_def by (auto split: sum.splits option.splits)
  define s3 where "s3 = s2\<lparr>events := ev,
      keyBindings := modify kd (\<lambda>kb. kb\<lparr>binding := bnd, deviceType := dt, axisDirection := d\<rparr>)
                       (keyBindings s2)\<rparr>"
  from assms c1 old c2 sub
  have rest: "(case (bnd, dt) of
                (Some b, Some t) \<Rightarrow>
                  (case addUsedDevice t s3 of
                     Inl e \<Rightarrow> Inl e
                   | Inr (device, s4) \<Rightarrow>
                       if is_axis b
                       then Inr (s4\<lparr>axesInUse := updateAxes (drop 5 b) kd device t d
                                        (deadZoneDefaultValue s4) (axesInUse s4)\<rparr>)
                       else Inr s4)
              | _ \<Rightarrow> Inr s3) = Inr s'"
    unfolding bindKey_def s3_def by (simp add: Let_def)
  have kb: "keyBindings s' = keyBindings s3
    \<and> (\<forall>k ax p. (k, ax, p) \<in> claimants (axesInUse s') \<longrightarrow>
        (k, ax, p) \<in> claimants (axesInUse s3)
        \<or> (k = kd \<and> (\<exists>b. bnd = Some b \<and> is_axis b \<and> ax = drop 5 b) \<and> dt \<noteq> None
             \<and> (if p then d > 0 else d < 0)))
    \<and> ((\<forall>a \<in> set (axesInUse s3). claimed a) \<longrightarrow>
       \<not> (\<exists>b. bnd = Some b \<and> is_axis b \<and> dt \<noteq> None \<and> d = 0) \<longrightarrow>
       (\<forall>a \<in> set (axesInUse s'). claimed a))"
  proof (cases "\<exists>b t. bnd = Some b \<and> dt = Some t")
    case False
    with rest have "s' = s3" by (auto split: option.splits)
    then show ?thesis by simp
  next
    case True
    then obtain b t where bt: "bnd = Some b" "dt = Some t" by blast
    with rest obtain device s4 where a: "addUsedDevice t s3 = Inr (device, s4)"
      and s': "s' = (if is_axis b
                    then s4\<lparr>axesInUse := updateAxes (drop 5 b) kd device t d
                                        (deadZoneDefaultValue s4) (axesInUse s4)\<rparr>
                    else s4)"
      by (auto split: sum.splits if_splits)
    note fr = addUsedDevice_frame [OF a]
    show ?thesis
    proof (cases "is_axis b")
      case False
      with s' fr claimants_cong [OF fr(2)] all_claimed_cong [OF fr(2)] show ?thesis by simp
    next
      case True
      have cl: "\<And>k ax p. (k, ax, p) \<in> claimants (axesInUse s') \<Longrightarrow>
          (k, ax, p) \<in> claimants (axesInUse s3)
            \<or> (k = kd \<and> ax = drop 5 b \<and> (if p then d > 0 else d < 0))"
      proof -
        fix k ax p assume "(k, ax, p) \<in> claimants (axesInUse s')"
        with True s' have "(k, ax, p) \<in> claimants (updateAxes (drop 5 b) kd device t d
            (deadZoneDefaultValue s4) (axesInUse s4))" by simp
        from updateAxes_claimants [OF this] claimants_cong [OF fr(2)]
        show "(k, ax, p) \<in> claimants (axesInUse s3)
            \<or> (k = kd \<and> ax = drop 5 b \<and> (if p then d > 0 else d < 0))" by simp
      qed
      have al: "(\<forall>a \<in> set (axesInUse s3). claimed a) \<Longrightarrow> d \<noteq> 0 \<Longrightarrow>
          (\<forall>a \<in> set (axesInUse s'). claimed a)"
        using True s' updateAxes_claimed all_claimed_cong [OF fr(2)] by simp
      from True s' fr(1) cl al bt show ?thesis by auto
    qed
  qed
  have s3k: "keyBindings s3 = modify kd (\<lambda>kb. kb\<lparr>binding := bnd, deviceType := dt, axisDirection := d\<rparr>)
                       (keyBindings s2)" "axesInUse s3 = axesInUse s2"
    by (simp_all add: s3_def)
  show thesis
    by (rule that [OF c1 old c2]) (use kb s3k in auto)
qed

text \<open>What the subscriptions raise: the \<^verbatim>\<open>AssertionError\<close> of \<^verbatim>\<open>accept\<close> for a list or tuple given
  for the pressed or the released type, the \<^verbatim>\<open>Exception\<close> of the callback check otherwise.\<close>
lemma subscribe_error:
  assumes "subscribe keyDesc bnd type cb ev = Inl e"
  shows "if list_for_single type cb then \<exists>msg. e = AssertionError msg else \<exists>msg. e = Exception msg"
  using assms unfolding subscribe_def acceptCallback_def
  by (cases type; cases cb) (auto split: option.splits if_splits)

text \<open>Up to the subscriptions \<^verbatim>\<open>bindKey\<close> cannot raise in a manager whose axis claimants are
  registered and whose device types are device classes.\<close>
lemma bindKey_clears_ok:
  assumes reg: "claimants_registered s" and val: "valid_device_types (keyBindings s)"
    and kd: "kd \<in> fst ` set (keyBindings s)"
  obtains s1 old s2 where
    "clearKeyEvent bnd d s = Inr s1"
    "map_of (keyBindings s1) kd = Some old"
    "clearKeyEvent (binding old) (axisDirection old) s1 = Inr s2"
proof -
  from clearKeyEvent_ok [OF reg val] obtain s1 where c1: "clearKeyEvent bnd d s = Inr s1" by blast
  note reg1 = clearKeyEvent_registered [OF c1 reg] and val1 = clearKeyEvent_valid [OF c1 val]
  from clearKeyEvent_result(1) [OF c1] kd have "kd \<in> fst ` set (keyBindings s1)"
    by (metis set_map)
  then obtain old where old: "map_of (keyBindings s1) kd = Some old"
    by (cases "map_of (keyBindings s1) kd") (auto simp: map_of_eq_None_iff)
  from clearKeyEvent_ok [OF reg1 val1] obtain s2 where
    c2: "clearKeyEvent (binding old) (axisDirection old) s1 = Inr s2" by blast
  from c1 old c2 show thesis by (rule that)
qed

lemma bindKey_raises:
  assumes reg: "claimants_registered s" and val: "valid_device_types (keyBindings s)"
    and kd: "kd \<in> fst ` set (keyBindings s)"
    and missing: "callback_missing type cb"
    and bound: "list_for_single type cb \<Longrightarrow> bnd \<noteq> None"
  shows "if list_for_single type cb
         then \<exists>msg. bindKey kd bnd type cb dt d s = Inl (AssertionError msg)
         else \<exists>msg. bindKey kd bnd type cb dt d s = Inl (Exception msg)"
proof -
  from bindKey_clears_ok [OF reg val kd] obtain s1 old s2 where
    c: "clearKeyEvent bnd d s = Inr s1" "map_of (keyBindings s1) kd = Some old"
       "clearKeyEvent (binding old) (axisDirection old) s1 = Inr s2" by blast
  from missing bound subscribe_raises_iff [of kd bnd type cb "events s2"]
  obtain e where e: "subscribe kd bnd type cb (events s2) = Inl e"
    by (cases "subscribe kd bnd type cb (events s2)") auto
  from c e have "bindKey kd bnd type cb dt d s = Inl e" by (simp add: bindKey_def)
  with subscribe_error [OF e] show ?thesis by (simp split: if_splits)
qed

lemma bindKey_returns:
  assumes reg: "claimants_registered s" and val: "valid_device_types (keyBindings s)"
    and kd: "kd \<in> fst ` set (keyBindings s)"
    and dt: "\<And>n. bnd \<noteq> None \<Longrightarrow> dt = Some n \<Longrightarrow> n \<in> set device_classes"
    and present: "\<not> (callback_missing type cb \<and> (list_for_single type cb \<longrightarrow> bnd \<noteq> None))"
  shows "\<exists>s'. bindKey kd bnd type cb dt d s = Inr s'"
proof -
  from bindKey_clears_ok [OF reg val kd] obtain s1 old s2 where
    c: "clearKeyEvent bnd d s = Inr s1" "map_of (keyBindings s1) kd = Some old"
       "clearKeyEvent (binding old) (axisDirection old) s1 = Inr s2" by blast
  from present subscribe_raises_iff [of kd bnd type cb "events s2"]
  obtain ev where sub: "subscribe kd bnd type cb (events s2) = Inr ev"
    by (cases "subscribe kd bnd type cb (events s2)") auto
  show ?thesis
  proof (cases "\<exists>b t. bnd = Some b \<and> dt = Some t")
    case False
    with c sub show ?thesis
      by (auto simp: bindKey_def Let_def split: option.splits)
  next
    case True
    then obtain b t where bt: "bnd = Some b" "dt = Some t" by blast
    with dt have "t \<in> set device_classes" by simp
    from addUsedDevice_ok [OF this] obtain dev s4 where
      "addUsedDevice t (s2\<lparr>events := ev,
          keyBindings := modify kd (\<lambda>kb. kb\<lparr>binding := bnd, deviceType := dt, axisDirection := d\<rparr>)
                     (keyBindings s2)\<rparr>) = Inr (dev, s4)" by blast
    with c sub bt show ?thesis
      by (simp add: bindKey_def Let_def)
  qed
qed

lemma bindKey_ok:
  assumes reg: "claimants_registered s" and val: "valid_device_types (keyBindings s)"
    and kd: "kd \<in> fst ` set (keyBindings s)"
    and dt: "\<And>n. bnd \<noteq> None \<Longrightarrow> dt = Some n \<Longrightarrow> n \<in> set device_classes"
    and present: "\<not> callback_missing type cb"
  shows "\<exists>s'. bindKey kd bnd type cb dt d s = Inr s'"
  using bindKey_returns [OF reg val kd dt] present by blast

text \<open>\<^verbatim>\<open>bindKey\<close> keeps the manager well formed.\<close>
lemma bindKey_preserves:
  assumes b: "bindKey kd bnd type cb dt d s = Inr s'"
    and reg: "claimants_registered s" and val: "valid_device_types (keyBindings s)"
    and dt: "\<And>n. dt = Some n \<Longrightarrow> n \<in> set device_classes"
  shows "map fst (keyBindings s') = map fst (keyBindings s)
         \<and> claimants_registered s' \<and> valid_device_types (keyBindings s')"
proof (rule bindKey_result [OF b])
  fix s1 old s2
  assume c1: "clearKeyEvent bnd d s = Inr s1"
    and old: "map_of (keyBindings s1) kd = Some old"
    and c2: "clearKeyEvent (binding old) (axisDirection old) s1 = Inr s2"
    and k: "keyBindings s' = modify kd (\<lambda>kb. kb\<lparr>binding := bnd, deviceType := dt, axisDirection := d\<rparr>)
                        (keyBindings s2)"
    and cl: "\<And>k ax p. (k, ax, p) \<in> claimants (axesInUse s') \<Longrightarrow>
        (k, ax, p) \<in> claimants (axesInUse s2)
        \<or> (k = kd \<and> (\<exists>b. bnd = Some b \<and> is_axis b \<and> ax = drop 5 b) \<and> dt \<noteq> None
             \<and> (if p then d > 0 else d < 0))"
  note reg1 = clearKeyEvent_registered [OF c1 reg] and val1 = clearKeyEvent_valid [OF c1 val]
  note reg2 = clearKeyEvent_registered [OF c2 reg1] and val2 = clearKeyEvent_valid [OF c2 val1]
  have keys: "map fst (keyBindings s') = map fst (keyBindings s)"
    using k clearKeyEvent_result(1) [OF c1] clearKeyEvent_result(1) [OF c2]
    by (simp add: map_fst_modify)
  from old have "kd \<in> fst ` set (keyBindings s1)"
    by (metis domI dom_map_of_conv_image_fst)
  with clearKeyEvent_result(1) [OF c1] have kdreg: "kd \<in> fst ` set (keyBindings s)"
    by (metis set_map)
  have sets: "fst ` set (keyBindings s') = fst ` set (keyBindings s)"
    "fst ` set (keyBindings s2) = fst ` set (keyBindings s)"
    using keys clearKeyEvent_result(1) [OF c1] clearKeyEvent_result(1) [OF c2]
    by (metis set_map)+
  have r: "claimants_registered s'"
    unfolding claimants_registered_iff
  proof (clarify)
    fix k ax p assume "(k, ax, p) \<in> claimants (axesInUse s')"
    from cl [OF this] reg2 kdreg sets
    show "k \<in> fst ` set (keyBindings s')"
      unfolding claimants_registered_iff by auto
  qed
  have v: "valid_device_types (keyBindings s')"
    unfolding k
    by (rule valid_device_types_modify [OF val2]) (use dt in \<open>cases dt; simp\<close>)
  from keys r v
  show "map fst (keyBindings s') = map fst (keyBindings s)
         \<and> claimants_registered s' \<and> valid_device_types (keyBindings s')" by simp
qed

subsection \<open>The example manager\<close>

lemma demo_keyBindings:
  "keySaveDataOf (keyBindings demo) =
     [(''jump'', Some ''space'', Some ''keyboard'', 0),
      (''left'', Some ''Axis.left_x'', Some ''gamepad'', - 1),
      (''right'', Some ''Axis.left_x'', Some ''gamepad'', 1)]"
  by code_simp

lemma demo_axesInUse:
  "axesInUse demo =
     [\<lparr>axis = ''left_x'', keyDescriptionPositive = Some ''right'',
       keyDescriptionNegative = Some ''left'', deadZone = 0.3,
       deviceTypePositive = Some ''gamepad'', deviceTypeNegative = Some ''gamepad'',
       devicePositive = Some pad, deviceNegative = Some pad\<rparr>]"
  by code_simp

subsection \<open>Clearing an axis with direction 0\<close>

lemma clearAxisEntries_direction_0:
  "clearAxisEntries bindingStr 0 axes = ([], axes)"
  by (induction axes) (simp_all add: clearAxisEntry_def)

text \<open>
  C10. For an input whose name starts with \<^verbatim>\<open>axis.\<close> (in any case), \<^verbatim>\<open>clearKeyEvent\<close> with
  direction 0 returns, leaves the table of controls as it was (so every binding and device
  type), and leaves every axis entry that claims a direction as it was; only entries that
  claim no direction are dropped.
\<close>
theorem clearKeyEvent_axis_direction_0_noop:
  assumes "is_axis b"
  shows "\<exists>s'. clearKeyEvent (Some b) 0 s = Inr s'
           \<and> keyBindings s' = keyBindings s
           \<and> axesInUse s' = filter claimed (axesInUse s)"
  using assms by (simp add: clearKeyEvent_def clearAxisEntries_direction_0)

theorem clearKeyEvent_axis_direction_0_noop_witness:
  "is_axis ''Axis.left_x''
   \<and> (\<exists>s'. clearKeyEvent (Some ''Axis.left_x'') 0 demo = Inr s'
         \<and> keyBindings s' = keyBindings demo
         \<and> axesInUse s' = filter claimed (axesInUse demo))"
proof -
  have h: "is_axis ''Axis.left_x''" by code_simp
  from clearKeyEvent_axis_direction_0_noop [OF h, of demo] h show ?thesis by simp
qed

subsection \<open>Loading\<close>

text \<open>
  C7. When the load callback raises an I/O error, \<^verbatim>\<open>loadKeyMapping\<close> returns and the table of
  controls (bindings, device types, axis directions) and the list \<^verbatim>\<open>axesInUse\<close> are exactly
  as before the call.
\<close>
theorem loadKeyMapping_io_error_untouched:
  assumes "loadMappingCallback s = Some loadCallback"
    and "loadCallback (bindingFile s) (storage s) = Inl e"
  shows "\<exists>s'. loadKeyMapping s = Inr s'
           \<and> keyBindings s' = keyBindings s \<and> axesInUse s' = axesInUse s"
  using assms by (simp add: loadKeyMapping_def showErrorDialogue_def)

theorem loadKeyMapping_io_error_untouched_witness:
  "loadMappingCallback (demo\<lparr>loadMappingCallback := Some (\<lambda>file stored. Inl ''cannot read'')\<rparr>)
     = Some (\<lambda>file stored. Inl ''cannot read'')
   \<and> (\<exists>s'. loadKeyMapping (demo\<lparr>loadMappingCallback := Some (\<lambda>file stored. Inl ''cannot read'')\<rparr>)
            = Inr s'
         \<and> keyBindings s' = keyBindings demo \<and> axesInUse s' = axesInUse demo)"
  using loadKeyMapping_io_error_untouched
    [of "demo\<lparr>loadMappingCallback := Some (\<lambda>file stored. Inl ''cannot read'')\<rparr>"
        "\<lambda>file stored. Inl ''cannot read''" "''cannot read''"]
  by simp

lemma bindingListOf_stale:
  assumes "description \<in> fst ` set keySaveData" and "map_of kbs description = None"
  shows "\<exists>name. bindingListOf keySaveData kbs = Inl (KeyError name)
           \<and> name \<in> fst ` set keySaveData \<and> map_of kbs name = None"
  using assms
proof (induction keySaveData)
  case Nil
  then show ?case by simp
next
  case (Cons r rest)
  obtain d b dt dir where r: "r = (d, b, dt, dir)" by (cases r) auto
  show ?case
  proof (cases "map_of kbs d")
    case None
    then show ?thesis using r by auto
  next
    case (Some bindingData)
    with Cons.prems r have "description \<in> fst ` set rest" by auto
    from Cons.IH [OF this Cons.prems(2)] obtain name where
      "bindingListOf rest kbs = Inl (KeyError name)" "name \<in> fst ` set rest" "map_of kbs name = None"
      by blast
    then show ?thesis using r Some by auto
  qed
qed

text \<open>
  C9. When the load callback returns a key record whose control is not registered,
  \<^verbatim>\<open>loadKeyMapping\<close> raises \<^verbatim>\<open>KeyError\<close> for a saved control that is not registered: the
  exception leaves the function, it is not the I/O error that the function handles.
\<close>
theorem loadKeyMapping_stale_control_raises:
  assumes "loadMappingCallback s = Some loadCallback"
    and "loadCallback (bindingFile s) (storage s) = Inr (keySaveData, axisSaveData)"
    and "description \<in> fst ` set keySaveData"
    and "map_of (keyBindings s) description = None"
  shows "\<exists>name. loadKeyMapping s = Inl (KeyError name)
           \<and> name \<in> fst ` set keySaveData \<and> map_of (keyBindings s) name = None"
proof -
  from bindingListOf_stale [OF assms(3,4)] obtain name where
    "bindingListOf keySaveData (keyBindings s) = Inl (KeyError name)"
    "name \<in> fst ` set keySaveData" "map_of (keyBindings s) name = None"
    by blast
  then show ?thesis using assms(1,2) by (auto simp add: loadKeyMapping_def)
qed

theorem loadKeyMapping_stale_control_raises_witness:
  "loadKeyMapping (demo\<lparr>loadMappingCallback := Some (\<lambda>file stored.
       Inr ([(''jump'', Some ''space'', Some ''keyboard'', 0),
             (''fly'', Some ''f'', Some ''keyboard'', 0)], []))\<rparr>)
     = Inl (KeyError ''fly'')"
proof -
  let ?data = "[(''jump'', Some ''space'', Some ''keyboard'', 0::int),
                (''fly'', Some ''f'', Some ''keyboard'', 0)]"
  let ?s = "demo\<lparr>loadMappingCallback := Some (\<lambda>file stored. Inr (?data, []))\<rparr>"
  have "map fst (keyBindings demo) = [''jump'', ''left'', ''right'']"
    by code_simp
  from arg_cong [OF this, of set]
  have registered: "fst ` set (keyBindings demo) = {''jump'', ''left'', ''right''}"
    by simp
  have h4: "map_of (keyBindings ?s) ''fly'' = None"
    using registered by (simp add: map_of_eq_None_iff)
  have jump: "map_of (keyBindings ?s) ''jump'' \<noteq> None"
    using registered by (simp add: map_of_eq_None_iff)
  from loadKeyMapping_stale_control_raises
    [of ?s "\<lambda>file stored. Inr (?data, [])" ?data "[]" "''fly''"] h4
  obtain name where n: "loadKeyMapping ?s = Inl (KeyError name)"
    "name \<in> fst ` set ?data" "map_of (keyBindings ?s) name = None"
    by auto
  from n(2,3) jump have "name = ''fly''" by auto
  with n(1) show ?thesis by simp
qed

subsection \<open>The example managers are well formed\<close>

lemma demo_wf:
  "claimants_registered demo" "valid_device_types (keyBindings demo)"
  "map fst (keyBindings demo) = [''jump'', ''left'', ''right'']"
  by code_simp+

lemma demoGroups_wf:
  "claimants_registered demoGroups" "valid_device_types (keyBindings demoGroups)"
  "map fst (keyBindings demoGroups) = [''use'', ''select'']"
  by code_simp+

subsection \<open>Missing callbacks\<close>

lemma list_for_single_missing:
  "list_for_single type cb \<Longrightarrow> callback_missing type cb"
  by (cases type; cases cb) simp_all

text \<open>
  C6, amended. In a manager whose axis claimants are registered and whose device types are
  device classes, \<^verbatim>\<open>bindKey\<close> of a registered control, with a device type that is a device
  class when an input is given, returns when the callback that the binding type requires is
  supplied, and raises the \<^verbatim>\<open>Exception\<close> of the callback check when it is missing; but a list
  or tuple given for the pressed or the released type passes that check: with an input it
  reaches \<^verbatim>\<open>accept\<close>, which raises \<^verbatim>\<open>AssertionError\<close>, and with no input \<^verbatim>\<open>bindKey\<close> returns.
  The held type never lacks a callback.
\<close>
theorem bindKey_raises_for_callback:
  assumes "claimants_registered s" and "valid_device_types (keyBindings s)"
    and "kd \<in> fst ` set (keyBindings s)"
    and "\<forall>n. bnd \<noteq> None \<and> dt = Some n \<longrightarrow> n \<in> set device_classes"
  shows "(\<not> callback_missing type cb \<longrightarrow> (\<exists>s'. bindKey kd bnd type cb dt d s = Inr s'))
       \<and> (callback_missing type cb \<and> \<not> list_for_single type cb
            \<longrightarrow> (\<exists>msg. bindKey kd bnd type cb dt d s = Inl (Exception msg)))
       \<and> (list_for_single type cb \<and> bnd \<noteq> None
            \<longrightarrow> (\<exists>msg. bindKey kd bnd type cb dt d s = Inl (AssertionError msg)))
       \<and> (list_for_single type cb \<and> bnd = None
            \<longrightarrow> (\<exists>s'. bindKey kd bnd type cb dt d s = Inr s'))
       \<and> \<not> callback_missing KEYMAP_HELD_KEY cb"
proof -
  note raises = bindKey_raises [OF assms(1,2,3), of type cb bnd dt d]
  note returns = bindKey_returns [OF assms(1,2,3), of bnd dt type cb d]
  have "\<not> callback_missing type cb \<longrightarrow> (\<exists>s'. bindKey kd bnd type cb dt d s = Inr s')"
    using returns assms(4) by blast
  moreover have "callback_missing type cb \<and> \<not> list_for_single type cb
      \<longrightarrow> (\<exists>msg. bindKey kd bnd type cb dt d s = Inl (Exception msg))"
  proof (intro impI, elim conjE)
    assume m: "callback_missing type cb" and n: "\<not> list_for_single type cb"
    from raises [OF m] n show "\<exists>msg. bindKey kd bnd type cb dt d s = Inl (Exception msg)"
      by simp
  qed
  moreover have "list_for_single type cb \<and> bnd \<noteq> None
      \<longrightarrow> (\<exists>msg. bindKey kd bnd type cb dt d s = Inl (AssertionError msg))"
  proof (intro impI, elim conjE)
    assume l: "list_for_single type cb" and b: "bnd \<noteq> None"
    from raises [OF list_for_single_missing [OF l] b] l
    show "\<exists>msg. bindKey kd bnd type cb dt d s = Inl (AssertionError msg)"
      by simp
  qed
  moreover have "list_for_single type cb \<and> bnd = None
      \<longrightarrow> (\<exists>s'. bindKey kd bnd type cb dt d s = Inr s')"
    using returns by blast
  ultimately show ?thesis by simp
qed

theorem bindKey_raises_for_callback_witness:
  "(\<exists>msg. bindKey ''jump'' (Some ''j'') KEYMAP_EVENT_PRESSED NoCallback (Some ''keyboard'') 0 demo
            = Inl (Exception msg))
   \<and> (\<exists>s'. bindKey ''jump'' (Some ''j'') KEYMAP_EVENT_PRESSED (Single 7) (Some ''keyboard'') 0 demo
            = Inr s')
   \<and> (\<exists>msg. bindKey ''jump'' (Some ''j'') KEYMAP_EVENT_PRESSED (CallbackList [Some 7])
              (Some ''keyboard'') 0 demo
            = Inl (AssertionError msg))
   \<and> (\<exists>s'. bindKey ''jump'' None KEYMAP_EVENT_RELEASED (CallbackList [Some 7]) None 0 demo
            = Inr s')
   \<and> (\<exists>s'. bindKey ''jump'' (Some ''j'') KEYMAP_HELD_KEY NoCallback (Some ''keyboard'') 0 demo
            = Inr s')"
proof -
  have k: "''jump'' \<in> fst ` set (keyBindings demo)"
    using arg_cong [OF demo_wf(3), of set] by simp
  have d: "\<forall>n. Some ''j'' \<noteq> None \<and> Some ''keyboard'' = Some n \<longrightarrow> n \<in> set device_classes"
    by (simp add: device_classes_def)
  have d': "\<forall>n. (None :: string option) \<noteq> None \<and> (None :: string option) = Some n
      \<longrightarrow> n \<in> set device_classes"
    by simp
  from bindKey_raises_for_callback [OF demo_wf(1,2) k d, of KEYMAP_EVENT_PRESSED NoCallback 0]
    bindKey_raises_for_callback [OF demo_wf(1,2) k d, of KEYMAP_EVENT_PRESSED "Single 7" 0]
    bindKey_raises_for_callback [OF demo_wf(1,2) k d, of KEYMAP_EVENT_PRESSED "CallbackList [Some 7]" 0]
    bindKey_raises_for_callback [OF demo_wf(1,2) k d', of KEYMAP_EVENT_RELEASED "CallbackList [Some 7]" 0]
    bindKey_raises_for_callback [OF demo_wf(1,2) k d, of KEYMAP_HELD_KEY NoCallback 0]
  show ?thesis by simp
qed

text \<open>
  C6 as stated fails in both directions. \<^verbatim>\<open>bindKey\<close> raises with no callback missing: \<^verbatim>\<open>KeyError\<close>
  for a control that is not registered, \<^verbatim>\<open>AttributeError\<close> for a device type that is no member
  of \<^verbatim>\<open>InputDevice.DeviceClass\<close>. And it returns with the single callback of the pressed type
  missing, when a list is given and no input.
\<close>
theorem bindKey_raises_otherwise_counterexample:
  "\<not> callback_missing KEYMAP_HELD_KEY NoCallback
   \<and> isl (bindKey ''fly'' (Some ''f'') KEYMAP_HELD_KEY NoCallback (Some ''keyboard'') 0 demo)
   \<and> projl (bindKey ''fly'' (Some ''f'') KEYMAP_HELD_KEY NoCallback (Some ''keyboard'') 0 demo)
       = KeyError ''fly''
   \<and> isl (bindKey ''jump'' (Some ''j'') KEYMAP_HELD_KEY NoCallback (Some ''joystick'') 0 demo)
   \<and> projl (bindKey ''jump'' (Some ''j'') KEYMAP_HELD_KEY NoCallback (Some ''joystick'') 0 demo)
       = AttributeError ''joystick''
   \<and> callback_missing KEYMAP_EVENT_PRESSED (CallbackList [Some 1, Some 2])
   \<and> \<not> isl (bindKey ''jump'' None KEYMAP_EVENT_PRESSED (CallbackList [Some 1, Some 2]) None 0 demo)"
  by code_simp

subsection \<open>Binding, then clearing\<close>

lemma bindKey_binding:
  assumes "bindKey kd bnd type cb dt d s = Inr s'"
  shows "\<exists>kb. map_of (keyBindings s') kd = Some kb \<and> binding kb = bnd \<and> deviceType kb = dt
           \<and> axisDirection kb = d"
proof (rule bindKey_result [OF assms])
  fix s1 old s2
  assume c1: "clearKeyEvent bnd d s = Inr s1"
    and old: "map_of (keyBindings s1) kd = Some old"
    and c2: "clearKeyEvent (binding old) (axisDirection old) s1 = Inr s2"
    and k: "keyBindings s' = modify kd (\<lambda>kb. kb\<lparr>binding := bnd, deviceType := dt, axisDirection := d\<rparr>)
                        (keyBindings s2)"
  from clearKeyEvent_result(2) [OF c2, of kd] old
  obtain kb2 where "map_of (keyBindings s2) kd = Some kb2" by (auto split: if_splits)
  with k show ?thesis by (simp add: map_of_modify)
qed

text \<open>
  C4, amended. For an input that is not an axis (or no input), \<^verbatim>\<open>bindKey\<close> of a registered
  control followed by \<^verbatim>\<open>clearKeyEvent\<close> of that input with direction 0 returns and leaves the
  control unbound.
\<close>
theorem bindKey_then_clearKeyEvent_unbinds:
  assumes "claimants_registered s" and "valid_device_types (keyBindings s)"
    and "c \<in> fst ` set (keyBindings s)"
    and "\<forall>n. dt = Some n \<longrightarrow> n \<in> set device_classes"
    and "\<not> callback_missing type cb"
    and "\<forall>b. bnd = Some b \<longrightarrow> \<not> is_axis b"
  shows "\<exists>s1 s2. bindKey c bnd type cb dt d s = Inr s1 \<and> clearKeyEvent bnd 0 s1 = Inr s2
           \<and> binding_of s2 c = Some None"
proof -
  from bindKey_ok [OF assms(1,2,3) _ assms(5)] assms(4)
  obtain s1 where b: "bindKey c bnd type cb dt d s = Inr s1" by blast
  from bindKey_preserves [OF b assms(1,2)] assms(4)
  have wf1: "claimants_registered s1" "valid_device_types (keyBindings s1)" by simp_all
  from clearKeyEvent_ok [OF wf1] obtain s2 where c: "clearKeyEvent bnd 0 s1 = Inr s2" by blast
  from bindKey_binding [OF b] obtain kb where
    kb: "map_of (keyBindings s1) c = Some kb" "binding kb = bnd" by blast
  have "binding_of s2 c = Some None"
  proof (cases bnd)
    case None
    with clearKeyEvent_result(5) [OF c] kb show ?thesis by (simp add: binding_of_def)
  next
    case (Some b)
    with assms(6) have na: "\<not> is_axis b" by simp
    from kb(1) have "(c, kb) \<in> set (keyBindings s1)" by (rule map_of_SomeD)
    with kb(2) Some na have "c \<in> keysToChange bnd 0 s1"
      by (auto simp: keysToChange_def)
    with clearKeyEvent_result(2) [OF c, of c] kb show ?thesis
      by (simp add: binding_of_def unbound_def)
  qed
  with b c show ?thesis by blast
qed

theorem bindKey_then_clearKeyEvent_unbinds_witness:
  "\<exists>s1 s2. bindKey ''jump'' (Some ''j'') KEYMAP_HELD_KEY NoCallback (Some ''keyboard'') 0 demo = Inr s1
      \<and> clearKeyEvent (Some ''j'') 0 s1 = Inr s2 \<and> binding_of s2 ''jump'' = Some None"
proof -
  have k: "''jump'' \<in> fst ` set (keyBindings demo)"
    using arg_cong [OF demo_wf(3), of set] by simp
  have d: "\<forall>n. Some ''keyboard'' = Some n \<longrightarrow> n \<in> set device_classes"
    by (simp add: device_classes_def)
  have m: "\<not> callback_missing KEYMAP_HELD_KEY NoCallback" by simp
  have a: "\<forall>b. Some ''j'' = Some b \<longrightarrow> \<not> is_axis b" by (simp add: is_axis_def startswith_def lower_def)
  from bindKey_then_clearKeyEvent_unbinds [OF demo_wf(1,2) k d m a, of 0]
  show ?thesis .
qed

text \<open>C4 as stated fails for an axis: the control stays bound.\<close>
theorem bindKey_then_clearKeyEvent_axis_counterexample:
  "\<not> isl (bindKey ''jump'' (Some ''Axis.left_y'') KEYMAP_HELD_KEY NoCallback (Some ''gamepad'') 1 demo)
   \<and> \<not> isl (clearKeyEvent (Some ''Axis.left_y'') 0
        (run (bindKey ''jump'' (Some ''Axis.left_y'') KEYMAP_HELD_KEY NoCallback (Some ''gamepad'') 1) demo))
   \<and> binding_of (run (clearKeyEvent (Some ''Axis.left_y'') 0)
        (run (bindKey ''jump'' (Some ''Axis.left_y'') KEYMAP_HELD_KEY NoCallback (Some ''gamepad'') 1) demo))
        ''jump'' = Some (Some ''Axis.left_y'')"
  by code_simp

subsection \<open>One input, two controls\<close>

text \<open>
  C5, amended. Whatever the group masks of the two controls, \<^verbatim>\<open>bindKey\<close> of the second
  control to an input that is not an axis and that the first control holds returns, binds the
  second control, and leaves the first control unbound: the input is not shared.
\<close>
theorem bindKey_takes_binding_from_holder:
  assumes "claimants_registered s" and "valid_device_types (keyBindings s)"
    and "k2 \<in> fst ` set (keyBindings s)"
    and "\<forall>n. dt = Some n \<longrightarrow> n \<in> set device_classes"
    and "\<not> callback_missing type cb"
    and "\<not> is_axis b"
    and "k1 \<noteq> k2"
    and "binding_of s k1 = Some (Some b)"
  shows "\<exists>s'. bindKey k2 (Some b) type cb dt d s = Inr s'
           \<and> binding_of s' k1 = Some None \<and> binding_of s' k2 = Some (Some b)"
proof -
  from bindKey_ok [OF assms(1,2,3) _ assms(5)] assms(4)
  obtain s' where b: "bindKey k2 (Some b) type cb dt d s = Inr s'" by blast
  from assms(8) obtain kb1 where kb1: "map_of (keyBindings s) k1 = Some kb1" "binding kb1 = Some b"
    by (auto simp: binding_of_def)
  have "binding_of s' k1 = Some None \<and> binding_of s' k2 = Some (Some b)"
  proof (rule bindKey_result [OF b])
    fix s1 old s2
    assume c1: "clearKeyEvent (Some b) d s = Inr s1"
      and c2: "clearKeyEvent (binding old) (axisDirection old) s1 = Inr s2"
      and k: "keyBindings s' = modify k2 (\<lambda>kb. kb\<lparr>binding := Some b, deviceType := dt, axisDirection := d\<rparr>)
                        (keyBindings s2)"
    from kb1(1) have "(k1, kb1) \<in> set (keyBindings s)" by (rule map_of_SomeD)
    with kb1(2) assms(6) have "k1 \<in> keysToChange (Some b) d s"
      by (auto simp: keysToChange_def)
    with clearKeyEvent_result(2) [OF c1, of k1] kb1(1)
    have 1: "map_of (keyBindings s1) k1 = Some (unbound kb1)" by simp
    with clearKeyEvent_result(2) [OF c2, of k1]
    have 2: "map_of (keyBindings s2) k1 = Some (unbound kb1)" by simp
    from bindKey_binding [OF b] 2 k assms(7)
    show ?thesis by (auto simp: binding_of_def map_of_modify unbound_def)
  qed
  with b show ?thesis by blast
qed

theorem bindKey_takes_binding_from_holder_witness:
  "\<not> hasBitsInCommon 1 2
   \<and> map (\<lambda>(k, kb). (k, binding kb, groupID kb)) (keyBindings demoGroups)
       = [(''use'', Some ''e'', 1), (''select'', Some ''enter'', 2)]
   \<and> (\<exists>s'. bindKey ''select'' (Some ''e'') KEYMAP_HELD_KEY NoCallback (Some ''keyboard'') 0 demoGroups = Inr s'
         \<and> binding_of s' ''use'' = Some None \<and> binding_of s' ''select'' = Some (Some ''e''))"
proof -
  have g: "\<not> hasBitsInCommon 1 2" by (simp add: hasBitsInCommon_def)
  have l: "map (\<lambda>(k, kb). (k, binding kb, groupID kb)) (keyBindings demoGroups)
       = [(''use'', Some ''e'', 1), (''select'', Some ''enter'', 2)]" by code_simp
  have k: "''select'' \<in> fst ` set (keyBindings demoGroups)"
    using arg_cong [OF demoGroups_wf(3), of set] by simp
  have d: "\<forall>n. Some ''keyboard'' = Some n \<longrightarrow> n \<in> set device_classes"
    by (simp add: device_classes_def)
  have m: "\<not> callback_missing KEYMAP_HELD_KEY NoCallback" by simp
  have a: "\<not> is_axis ''e''" by (simp add: is_axis_def startswith_def lower_def)
  have n: "''use'' \<noteq> ''select''" by simp
  have h: "binding_of demoGroups ''use'' = Some (Some ''e'')" by code_simp
  from bindKey_takes_binding_from_holder [OF demoGroups_wf(1,2) k d m a n h, of 0] g l
  show ?thesis by simp
qed

text \<open>C5 as stated fails: the masks of the two controls are disjoint, and the first
  control loses the input.\<close>
theorem bindKey_disjoint_groups_counterexample:
  "\<not> hasBitsInCommon 1 2
   \<and> map (\<lambda>(k, kb). (k, binding kb, groupID kb)) (keyBindings demoGroups)
       = [(''use'', Some ''e'', 1), (''select'', Some ''enter'', 2)]
   \<and> \<not> isl (bindKey ''select'' (Some ''e'') KEYMAP_HELD_KEY NoCallback (Some ''keyboard'') 0 demoGroups)
   \<and> map (\<lambda>(k, kb). (k, binding kb, groupID kb))
        (keyBindings (run (bindKey ''select'' (Some ''e'') KEYMAP_HELD_KEY NoCallback (Some ''keyboard'') 0)
           demoGroups))
       = [(''use'', None, 1), (''select'', Some ''e'', 2)]"
  by code_simp

subsection \<open>Axis entries and their claims\<close>

lemma run_Inr: "\<not> isl (f s) \<Longrightarrow> f s = Inr (run f s)"
  by (cases "f s") (simp_all add: run_def)

lemma entry_iff_claimant:
  assumes "\<forall>a \<in> set axes. claimed a"
  shows "(\<exists>a \<in> set axes. axis a = ax) \<longleftrightarrow> (\<exists>k p. (k, ax, p) \<in> claimants axes)"
proof
  assume "\<exists>a \<in> set axes. axis a = ax"
  then obtain a where a: "a \<in> set axes" "axis a = ax" by blast
  with assms have "claimed a" by blast
  then consider k where "keyDescriptionPositive a = Some k" | k where "keyDescriptionNegative a = Some k"
    unfolding claimed_def by auto
  then show "\<exists>k p. (k, ax, p) \<in> claimants axes"
  proof cases
    case 1
    with a have "(k, ax, True) \<in> claimants axes" unfolding claimants_iff by auto
    then show ?thesis by blast
  next
    case 2
    with a have "(k, ax, False) \<in> claimants axes" unfolding claimants_iff by auto
    then show ?thesis by blast
  qed
next
  assume "\<exists>k p. (k, ax, p) \<in> claimants axes"
  then show "\<exists>a \<in> set axes. axis a = ax" unfolding claimants_iff by blast
qed

text \<open>
  C3, amended. \<^verbatim>\<open>clearKeyEvent\<close> of a string input leaves only axis entries with a direction
  bound, and an entry of an axis is there afterwards exactly when a claim on that axis is left
  after the clear. \<^verbatim>\<open>bindKey\<close> keeps every axis entry with a direction bound, unless it binds
  an axis input with direction 0.
\<close>
theorem axis_entries_keep_a_direction:
  "(clearKeyEvent (Some b) d s = Inr s' \<longrightarrow>
      (\<forall>a \<in> set (axesInUse s'). claimed a)
      \<and> (\<forall>ax. (\<exists>a \<in> set (axesInUse s'). axis a = ax) \<longleftrightarrow>
              (\<exists>k p. (k, ax, p) \<in> claimants (axesInUse s)
                  \<and> \<not> (is_axis b \<and> ax = drop 5 b \<and> ((p \<and> d = 1) \<or> (\<not> p \<and> d = - 1))))))
   \<and> ((\<forall>a \<in> set (axesInUse s). claimed a) \<and> bindKey kd bnd type cb dt d s = Inr s''
        \<and> \<not> (\<exists>b. bnd = Some b \<and> is_axis b \<and> dt \<noteq> None \<and> d = 0) \<longrightarrow>
      (\<forall>a \<in> set (axesInUse s''). claimed a))"
proof (intro conjI impI)
  assume c: "clearKeyEvent (Some b) d s = Inr s'"
  from clearKeyEvent_result(4) [OF c] show cl: "\<forall>a \<in> set (axesInUse s'). claimed a" by simp
  show "\<forall>ax. (\<exists>a \<in> set (axesInUse s'). axis a = ax) \<longleftrightarrow>
              (\<exists>k p. (k, ax, p) \<in> claimants (axesInUse s)
                  \<and> \<not> (is_axis b \<and> ax = drop 5 b \<and> ((p \<and> d = 1) \<or> (\<not> p \<and> d = - 1))))"
    unfolding entry_iff_claimant [OF cl] clearKeyEvent_result(3) [OF c] by simp
next
  assume a: "(\<forall>a \<in> set (axesInUse s). claimed a) \<and> bindKey kd bnd type cb dt d s = Inr s''
        \<and> \<not> (\<exists>b. bnd = Some b \<and> is_axis b \<and> dt \<noteq> None \<and> d = 0)"
  then have b: "bindKey kd bnd type cb dt d s = Inr s''" by simp
  show "\<forall>a \<in> set (axesInUse s''). claimed a"
  proof (rule bindKey_result [OF b])
    fix s1 old s2
    assume c1: "clearKeyEvent bnd d s = Inr s1"
      and c2: "clearKeyEvent (binding old) (axisDirection old) s1 = Inr s2"
      and al: "(\<forall>a \<in> set (axesInUse s2). claimed a) \<Longrightarrow>
         \<not> (\<exists>b. bnd = Some b \<and> is_axis b \<and> dt \<noteq> None \<and> d = 0) \<Longrightarrow>
         (\<forall>a \<in> set (axesInUse s''). claimed a)"
    have 1: "\<forall>a \<in> set (axesInUse s1). claimed a"
      using clearKeyEvent_result(4,5) [OF c1] a by (cases bnd) auto
    have 2: "\<forall>a \<in> set (axesInUse s2). claimed a"
      using clearKeyEvent_result(4,5) [OF c2] 1 by (cases "binding old") auto
    from al [OF 2] a show ?thesis by simp
  qed
qed

theorem axis_entries_keep_a_direction_witness:
  "map claim_of (axesInUse demo) = [(''left_x'', Some ''right'', Some ''left'')]
   \<and> map claim_of (axesInUse (run (clearKeyEvent (Some ''Axis.left_x'') 1) demo))
       = [(''left_x'', None, Some ''left'')]
   \<and> list_all claimed (axesInUse (run (clearKeyEvent (Some ''Axis.left_x'') 1) demo))
   \<and> axesInUse (run (clearKeyEvent (Some ''Axis.left_x'') (- 1))
        (run (clearKeyEvent (Some ''Axis.left_x'') 1) demo)) = []
   \<and> list_all claimed (axesInUse (run (bindKey ''jump'' (Some ''Axis.left_y'') KEYMAP_HELD_KEY NoCallback
          (Some ''gamepad'') 1) demo))"
proof -
  let ?c = "clearKeyEvent (Some ''Axis.left_x'') 1"
  let ?b = "bindKey ''jump'' (Some ''Axis.left_y'') KEYMAP_HELD_KEY NoCallback (Some ''gamepad'') 1"
  have 0: "map claim_of (axesInUse demo) = [(''left_x'', Some ''right'', Some ''left'')]"
    by code_simp
  have 1: "map claim_of (axesInUse (run ?c demo)) = [(''left_x'', None, Some ''left'')]"
    by code_simp
  have 2: "axesInUse (run (clearKeyEvent (Some ''Axis.left_x'') (- 1)) (run ?c demo)) = []"
    by code_simp
  have "\<not> isl (?c demo)" by code_simp
  then have c: "?c demo = Inr (run ?c demo)" by (rule run_Inr)
  have "\<not> isl (?b demo)" by code_simp
  then have b: "?b demo = Inr (run ?b demo)" by (rule run_Inr)
  have d: "\<forall>a \<in> set (axesInUse demo). claimed a"
    by (simp add: demo_axesInUse claimed_def)
  from axis_entries_keep_a_direction [of "''Axis.left_x''" 1 demo "run ?c demo"
      "''jump''" "Some ''Axis.left_y''" KEYMAP_HELD_KEY NoCallback "Some ''gamepad''" "run ?b demo"]
    c b d 0 1 2
  show ?thesis by (simp add: list_all_iff)
qed

text \<open>C3 as stated fails: \<^verbatim>\<open>bindKey\<close> of an axis with direction 0 leaves an entry that
  claims no direction, and so does \<^verbatim>\<open>loadKeyMapping\<close> of a profile with an axis record and no
  key record.\<close>
theorem bindKey_axis_direction_0_counterexample:
  "list_all claimed (axesInUse demo)
   \<and> \<not> isl (loadKeyMapping demoAxisOnlyProfile)
   \<and> map claim_of (axesInUse (run loadKeyMapping demoAxisOnlyProfile)) = [(''left_y'', None, None)]
   \<and> \<not> isl (bindKey ''jump'' (Some ''Axis.left_y'') KEYMAP_HELD_KEY NoCallback (Some ''gamepad'') 0 demo)
   \<and> map claim_of (axesInUse (run (bindKey ''jump'' (Some ''Axis.left_y'') KEYMAP_HELD_KEY NoCallback
         (Some ''gamepad'') 0) demo))
       = [(''left_x'', Some ''right'', Some ''left''), (''left_y'', None, None)]
   \<and> \<not> list_all claimed (axesInUse (run (bindKey ''jump'' (Some ''Axis.left_y'') KEYMAP_HELD_KEY
         NoCallback (Some ''gamepad'') 0) demo))"
  by code_simp

subsection \<open>The conflict check of \<^verbatim>\<open>keyRelease\<close>\<close>

lemma axisConflict_eq:
  "axisConflict k v axes c =
     (if \<exists>a \<in> set axes. (keyDescriptionPositive a = Some k \<and> v > 0)
                       \<or> (keyDescriptionNegative a = Some k \<and> v < 0)
      then Some k else c)"
  unfolding axisConflict_def
  by (induction axes arbitrary: c) (auto simp: Let_def)

lemma findConflict_step:
  "(\<lambda>(keyDesc, kb) conflict.
        if binding kb = Some candidate \<and> keyDesc \<noteq> beingBound
           \<and> hasBitsInCommon (groupID kb) g
        then (if is_axis candidate then axisConflict keyDesc v axes conflict else Some keyDesc)
        else conflict)
   = (\<lambda>(keyDesc, kb) conflict.
        if conflicting candidate v beingBound g axes keyDesc kb then Some keyDesc else conflict)"
  by (intro ext) (auto simp: axisConflict_eq conflicting_def)

lemma fold_conflict_None:
  "fold (\<lambda>(k, kb) c. if P k kb then Some k else c) kbs acc = None
     \<longleftrightarrow> acc = None \<and> (\<forall>(k, kb) \<in> set kbs. \<not> P k kb)"
proof (induction kbs arbitrary: acc)
  case Nil
  then show ?case by simp
next
  case (Cons e kbs)
  obtain k kb where e: "e = (k, kb)" by (cases e)
  show ?case unfolding e by (cases "P k kb") (simp_all add: Cons.IH)
qed

lemma fold_conflict_Some:
  "fold (\<lambda>(k, kb) c. if P k kb then Some k else c) kbs acc = Some x
     \<Longrightarrow> acc = Some x \<or> (\<exists>kb. (x, kb) \<in> set kbs \<and> P x kb)"
proof (induction kbs arbitrary: acc)
  case Nil
  then show ?case by simp
next
  case (Cons e kbs)
  obtain k kb where e: "e = (k, kb)" by (cases e)
  show ?case
  proof (cases "P k kb")
    case True
    with Cons.prems e have "fold (\<lambda>(k, kb) c. if P k kb then Some k else c) kbs (Some k) = Some x"
      by simp
    from Cons.IH [OF this] True e show ?thesis by auto
  next
    case False
    with Cons.prems e have "fold (\<lambda>(k, kb) c. if P k kb then Some k else c) kbs acc = Some x"
      by simp
    from Cons.IH [OF this] e show ?thesis by auto
  qed
qed

lemma findConflict_None:
  "findConflict candidate v beingBound g axes kbs = None
     \<longleftrightarrow> (\<forall>(k, kb) \<in> set kbs. \<not> conflicting candidate v beingBound g axes k kb)"
  unfolding findConflict_def findConflict_step by (simp add: fold_conflict_None)

lemma findConflict_Some:
  assumes "findConflict candidate v beingBound g axes kbs = Some x"
  shows "\<exists>kb. (x, kb) \<in> set kbs \<and> conflicting candidate v beingBound g axes x kb"
  using fold_conflict_Some [of "conflicting candidate v beingBound g axes" kbs None x] assms
  unfolding findConflict_def findConflict_step by simp

subsection \<open>Committing a candidate\<close>

lemma saveKeyMapping_frame:
  "keyBindings (saveKeyMapping s) = keyBindings s"
  "axesInUse (saveKeyMapping s) = axesInUse s"
  "keyBeingBound (saveKeyMapping s) = keyBeingBound s"
  "bindingDialogueVisible (saveKeyMapping s) = bindingDialogueVisible s"
  "currentConflict (saveKeyMapping s) = currentConflict s"
  "conflictDialogueShown (saveKeyMapping s) = conflictDialogueShown s"
  by (simp_all add: saveKeyMapping_def showErrorDialogue_def split: option.splits sum.splits)

lemma finishKeyRelease_result:
  assumes "finishKeyRelease key s = Inr s'" and "keyBeingBound s = Some beingBound"
  shows "binding_of s' beingBound = Some (lastKeyInterception s)"
    and "keyBeingBound s' = None" and "\<not> bindingDialogueVisible s'"
proof -
  from assms obtain kb :: KeyBinding and s1 where
    b: "bindKey beingBound (lastKeyInterception s) (keyType kb) (callback kb)
          (lastKeyInterceptionDeviceType s) (lastKeyInterceptionValue s) s = Inr s1"
    and s': "s' = (saveKeyMapping ((hideBindingDialogue (s1\<lparr>keyBeingBound := None\<rparr>))
                    \<lparr>bindingFile := bindingFileCustom (hideBindingDialogue (s1\<lparr>keyBeingBound := None\<rparr>))\<rparr>))
                  \<lparr>deviceAxisTestValues := []\<rparr>"
    unfolding finishKeyRelease_def by (auto simp: Let_def split: option.splits sum.splits)
  from bindKey_binding [OF b] obtain kb1 where
    "map_of (keyBindings s1) beingBound = Some kb1" "binding kb1 = lastKeyInterception s" by blast
  then show "binding_of s' beingBound = Some (lastKeyInterception s)"
    unfolding s' binding_of_def
    by (simp add: saveKeyMapping_frame hideBindingDialogue_def clearEvents_def)
  show "keyBeingBound s' = None" "\<not> bindingDialogueVisible s'"
    unfolding s' by (simp_all add: saveKeyMapping_frame hideBindingDialogue_def clearEvents_def)
qed

lemma finishKeyRelease_ok:
  assumes "claimants_registered s" and "valid_device_types (keyBindings s)"
    and "keyBeingBound s = Some beingBound"
    and "map_of (keyBindings s) beingBound = Some kb"
    and "\<not> callback_missing (keyType kb) (callback kb)"
    and "\<forall>n. lastKeyInterceptionDeviceType s = Some n \<longrightarrow> n \<in> set device_classes"
  shows "\<exists>s'. finishKeyRelease key s = Inr s'"
proof -
  from assms(4) have "beingBound \<in> fst ` set (keyBindings s)"
    by (metis domI dom_map_of_conv_image_fst)
  from bindKey_ok [OF assms(1,2) this _ assms(5)] assms(6)
  obtain s1 where "bindKey beingBound (lastKeyInterception s) (keyType kb) (callback kb)
          (lastKeyInterceptionDeviceType s) (lastKeyInterceptionValue s) s = Inr s1" by blast
  with assms(3,4) show ?thesis by (simp add: finishKeyRelease_def Let_def)
qed

text \<open>
  C1. When \<^verbatim>\<open>keyRelease\<close> finalizes a pending candidate, it reports a conflict exactly when
  some other control holds the candidate input with an overlapping group mask (and, for an
  axis, is named by an axis entry for the direction of the candidate's value). On a conflict
  the conflict dialogue is opened for a conflicting control and nothing is bound; otherwise
  the candidate is committed with \<^verbatim>\<open>finishKeyRelease\<close>, which binds it to the control being
  bound and closes the binding dialogue, and which returns in a well-formed manager.
\<close>
theorem keyRelease_conflict_iff:
  assumes "bindingDialogueVisible s" and "keyBeingBound s = Some beingBound"
    and "lastKeyInterception s = Some candidate"
    and "map_of (keyBindings s) beingBound = Some kbb"
  shows "((\<exists>(k, kb) \<in> set (keyBindings s).
            conflicting candidate (lastKeyInterceptionValue s) beingBound (groupID kbb) (axesInUse s) k kb)
          \<longrightarrow> (\<exists>s' c kb. keyRelease key s = Inr s'
                 \<and> currentConflict s' = Some c \<and> conflictDialogueShown s'
                 \<and> (c, kb) \<in> set (keyBindings s)
                 \<and> conflicting candidate (lastKeyInterceptionValue s) beingBound (groupID kbb)
                      (axesInUse s) c kb
                 \<and> keyBindings s' = keyBindings s \<and> axesInUse s' = axesInUse s
                 \<and> keyBeingBound s' = Some beingBound))
       \<and> (\<not> (\<exists>(k, kb) \<in> set (keyBindings s).
            conflicting candidate (lastKeyInterceptionValue s) beingBound (groupID kbb) (axesInUse s) k kb)
          \<longrightarrow> keyRelease key s
                = finishKeyRelease key
                    (s\<lparr>lastKeyInterception := Some candidate,
                       lastKeyInterceptionDeviceType := Some (candidateDeviceType s candidate)\<rparr>)
              \<and> (\<forall>s'. keyRelease key s = Inr s' \<longrightarrow>
                    binding_of s' beingBound = Some (Some candidate)
                    \<and> keyBeingBound s' = None \<and> \<not> bindingDialogueVisible s')
              \<and> (claimants_registered s \<and> valid_device_types (keyBindings s)
                  \<and> \<not> callback_missing (keyType kbb) (callback kbb)
                  \<and> candidateDeviceType s candidate \<in> set device_classes
                  \<longrightarrow> (\<exists>s'. keyRelease key s = Inr s')))"
proof -
  define s1 where "s1 = s\<lparr>lastKeyInterception := Some candidate,
      lastKeyInterceptionDeviceType := Some (candidateDeviceType s candidate)\<rparr>"
  define fc where "fc = findConflict candidate (lastKeyInterceptionValue s) beingBound
      (groupID kbb) (axesInUse s) (keyBindings s)"
  have kr: "keyRelease key s =
      (case fc of Some conflict \<Rightarrow> Inr (handleBindingConflict key conflict s1)
       | None \<Rightarrow> finishKeyRelease key s1)"
    using assms unfolding keyRelease_def s1_def fc_def candidateDeviceType_def
    by (simp add: Let_def)
  show ?thesis
  proof (intro conjI impI)
    assume ex: "\<exists>(k, kb) \<in> set (keyBindings s).
        conflicting candidate (lastKeyInterceptionValue s) beingBound (groupID kbb) (axesInUse s) k kb"
    with findConflict_None [of candidate "lastKeyInterceptionValue s" beingBound "groupID kbb"
        "axesInUse s" "keyBindings s"]
    obtain c where c: "fc = Some c" unfolding fc_def by (cases fc) (auto simp: fc_def)
    from findConflict_Some [OF c [unfolded fc_def]] obtain kb where
      kb: "(c, kb) \<in> set (keyBindings s)"
        "conflicting candidate (lastKeyInterceptionValue s) beingBound (groupID kbb) (axesInUse s) c kb"
      by blast
    have "keyRelease key s = Inr (handleBindingConflict key c s1)" using kr c by simp
    moreover have "currentConflict (handleBindingConflict key c s1) = Some c"
      "conflictDialogueShown (handleBindingConflict key c s1)"
      "keyBindings (handleBindingConflict key c s1) = keyBindings s"
      "axesInUse (handleBindingConflict key c s1) = axesInUse s"
      "keyBeingBound (handleBindingConflict key c s1) = Some beingBound"
      using assms(2) by (simp_all add: handleBindingConflict_def clearEvents_def s1_def)
    ultimately show "\<exists>s' c kb. keyRelease key s = Inr s'
                 \<and> currentConflict s' = Some c \<and> conflictDialogueShown s'
                 \<and> (c, kb) \<in> set (keyBindings s)
                 \<and> conflicting candidate (lastKeyInterceptionValue s) beingBound (groupID kbb)
                      (axesInUse s) c kb
                 \<and> keyBindings s' = keyBindings s \<and> axesInUse s' = axesInUse s
                 \<and> keyBeingBound s' = Some beingBound"
      using kb by blast
  next
    assume nex: "\<not> (\<exists>(k, kb) \<in> set (keyBindings s).
        conflicting candidate (lastKeyInterceptionValue s) beingBound (groupID kbb) (axesInUse s) k kb)"
    with findConflict_None [of candidate "lastKeyInterceptionValue s" beingBound "groupID kbb"
        "axesInUse s" "keyBindings s"]
    have n: "fc = None" unfolding fc_def by auto
    with kr show fin: "keyRelease key s
                = finishKeyRelease key
                    (s\<lparr>lastKeyInterception := Some candidate,
                       lastKeyInterceptionDeviceType := Some (candidateDeviceType s candidate)\<rparr>)"
      by (simp add: s1_def)
    have bb1: "keyBeingBound s1 = Some beingBound" using assms(2) by (simp add: s1_def)
    show "\<forall>s'. keyRelease key s = Inr s' \<longrightarrow>
                    binding_of s' beingBound = Some (Some candidate)
                    \<and> keyBeingBound s' = None \<and> \<not> bindingDialogueVisible s'"
    proof (intro allI impI)
      fix s' assume "keyRelease key s = Inr s'"
      with kr n have f: "finishKeyRelease key s1 = Inr s'" by simp
      from finishKeyRelease_result [OF f bb1]
      have r: "binding_of s' beingBound = Some (Some candidate)"
        "keyBeingBound s' = None" "\<not> bindingDialogueVisible s'"
        by (simp_all add: s1_def)
      then show "binding_of s' beingBound = Some (Some candidate)
                    \<and> keyBeingBound s' = None \<and> \<not> bindingDialogueVisible s'" by simp
    qed
    show "\<exists>s'. keyRelease key s = Inr s'"
      if wf: "claimants_registered s \<and> valid_device_types (keyBindings s)
                  \<and> \<not> callback_missing (keyType kbb) (callback kbb)
                  \<and> candidateDeviceType s candidate \<in> set device_classes"
    proof -
      have cr: "claimants_registered s1"
        using wf unfolding claimants_registered_def s1_def by (simp cong: option.case_cong)
      have "valid_device_types (keyBindings s1)"
        "map_of (keyBindings s1) beingBound = Some kbb"
        "\<forall>n. lastKeyInterceptionDeviceType s1 = Some n \<longrightarrow> n \<in> set device_classes"
        using wf assms(4) by (simp_all add: s1_def)
      from finishKeyRelease_ok [OF cr this(1) bb1 this(2) _ this(3), of key] wf
      show ?thesis using kr n by simp
    qed
  qed
qed

theorem keyRelease_conflict_iff_witness:
  "(\<exists>s' c kb. keyRelease ''Axis.left_x'' demoAwaitingAxis = Inr s'
       \<and> currentConflict s' = Some c \<and> conflictDialogueShown s'
       \<and> (c, kb) \<in> set (keyBindings demoAwaitingAxis)
       \<and> keyBindings s' = keyBindings demoAwaitingAxis)
   \<and> currentConflict (run (keyRelease ''Axis.left_x'') demoAwaitingAxis) = Some ''right''
   \<and> (\<exists>s'. keyRelease ''e'' demoAwaitingKey = Inr s'
         \<and> binding_of s' ''select'' = Some (Some ''e'') \<and> keyBeingBound s' = None)
   \<and> currentConflict (run (keyRelease ''e'') demoAwaitingKey) = None"
proof -
  let ?a = demoAwaitingAxis
  let ?ja = "the (map_of (keyBindings ?a) ''jump'')"
  have a1: "bindingDialogueVisible ?a" by code_simp
  have a2: "keyBeingBound ?a = Some ''jump''" by code_simp
  have a3: "lastKeyInterception ?a = Some ''Axis.left_x''" by code_simp
  have "map_of (keyBindings ?a) ''jump'' \<noteq> None" by code_simp
  then have a4: "map_of (keyBindings ?a) ''jump'' = Some ?ja" by simp
  have a5: "\<exists>(k, kb) \<in> set (keyBindings ?a).
      conflicting ''Axis.left_x'' (lastKeyInterceptionValue ?a) ''jump'' (groupID ?ja) (axesInUse ?a) k kb"
    by code_simp
  have a6: "currentConflict (run (keyRelease ''Axis.left_x'') ?a) = Some ''right''" by code_simp
  let ?k = demoAwaitingKey
  let ?sk = "the (map_of (keyBindings ?k) ''select'')"
  have k1: "bindingDialogueVisible ?k" by code_simp
  have k2: "keyBeingBound ?k = Some ''select''" by code_simp
  have k3: "lastKeyInterception ?k = Some ''e''" by code_simp
  have "map_of (keyBindings ?k) ''select'' \<noteq> None" by code_simp
  then have k4: "map_of (keyBindings ?k) ''select'' = Some ?sk" by simp
  have k5: "\<not> (\<exists>(k, kb) \<in> set (keyBindings ?k).
      conflicting ''e'' (lastKeyInterceptionValue ?k) ''select'' (groupID ?sk) (axesInUse ?k) k kb)"
    by code_simp
  have k6: "claimants_registered ?k" "valid_device_types (keyBindings ?k)"
    "\<not> callback_missing (keyType ?sk) (callback ?sk)"
    "candidateDeviceType ?k ''e'' \<in> set device_classes"
    by code_simp+
  have k7: "currentConflict (run (keyRelease ''e'') ?k) = None" by code_simp
  from keyRelease_conflict_iff [OF a1 a2 a3 a4, of "''Axis.left_x''"] a5
  have A: "\<exists>s' c kb. keyRelease ''Axis.left_x'' ?a = Inr s'
       \<and> currentConflict s' = Some c \<and> conflictDialogueShown s'
       \<and> (c, kb) \<in> set (keyBindings ?a) \<and> keyBindings s' = keyBindings ?a"
    by blast
  from keyRelease_conflict_iff [OF k1 k2 k3 k4, of "''e''"] k5 k6
  have K: "\<exists>s'. keyRelease ''e'' ?k = Inr s'
         \<and> binding_of s' ''select'' = Some (Some ''e'') \<and> keyBeingBound s' = None"
    by blast
  from A a6 K k7 show ?thesis by blast
qed

subsection \<open>The scan of the axes while a rebind is awaited\<close>

lemma find_append_cases:
  "find P (xs @ ys) = (case find P xs of None \<Rightarrow> find P ys | Some x \<Rightarrow> Some x)"
  by (induction xs) auto

lemma find_map_comp: "find P (map f xs) = map_option f (find (P \<circ> f) xs)"
  by (induction xs) auto

lemma scanAxes_find:
  "scanAxes device (Some smp) axes
     = Inr (find (\<lambda>(axisID, v). axisID \<noteq> ''none'' \<and> axisMoved smp axisID v) axes)"
proof (induction axes)
  case Nil
  then show ?case by simp
next
  case (Cons av axes)
  obtain axisID v where av: "av = (axisID, v)" by (cases av)
  show ?case unfolding av
    by (cases "axisID \<noteq> ''none''"; cases "axisMoved smp axisID v") (simp_all add: Cons.IH)
qed

lemma moved_device:
  assumes "map_of (deviceAxisTestValues s) device = Some smp"
  shows "moved s \<circ> Pair device
           = (\<lambda>(axisID, v). axisID \<noteq> ''none'' \<and> axisMoved smp axisID v)"
  using assms by (auto simp: moved_def axisMoved_def fun_eq_iff)

lemma scanDevices_find:
  assumes "\<forall>device \<in> set devices. map_of (deviceAxisTestValues s) device \<noteq> None"
  shows "scanDevices devices s
     = Inr (find (moved s)
              (concat (map (\<lambda>device. map (Pair device) (deviceAxes s device)) devices)))"
  using assms
proof (induction devices)
  case Nil
  then show ?case by simp
next
  case (Cons device devices)
  then obtain smp where smp: "map_of (deviceAxisTestValues s) device = Some smp" by auto
  from Cons have IH: "scanDevices devices s
     = Inr (find (moved s)
              (concat (map (\<lambda>device. map (Pair device) (deviceAxes s device)) devices)))"
    by simp
  show ?case
  proof (cases "find (\<lambda>(axisID, v). axisID \<noteq> ''none'' \<and> axisMoved smp axisID v) (deviceAxes s device)")
    case None
    then show ?thesis
      by (simp add: smp scanAxes_find IH find_append_cases find_map_comp moved_device [OF smp])
  next
    case (Some av)
    obtain axisID v where av: "av = (axisID, v)" by (cases av)
    with Some show ?thesis
      by (simp add: smp scanAxes_find find_append_cases find_map_comp moved_device [OF smp])
  qed
qed

text \<open>
  C8, amended. While a rebind is awaited and every device set up for interception has its
  baseline samples, \<^verbatim>\<open>update\<close> scans the axes in order and, for the first axis that has moved
  (no baseline sample and more than 0.5 in absolute terms, or a baseline sample and more than
  0.3 away from it), does one \<^verbatim>\<open>keyInterception\<close> and one \<^verbatim>\<open>keyRelease\<close> and returns; when no
  axis has moved it does nothing.
\<close>
theorem update_awaiting_first_moved_axis:
  assumes "bindingDialogueVisible s"
    and "\<forall>device \<in> set (dataNPList s). map_of (deviceAxisTestValues s) device \<noteq> None"
  shows "update s =
     (case find (moved s) (awaited_axes s) of
        None \<Rightarrow> Inr s
      | Some (device, axisID, v) \<Rightarrow>
          keyRelease (str_axis axisID)
            (keyInterception (Some (getDeviceTypeString (str_device_class (device_class device))))
               (str_axis axisID) v s))"
  unfolding update_def awaited_axes_def scanDevices_find [OF assms(2)]
  using assms(1) by (simp split: option.splits)

theorem update_awaiting_first_moved_axis_witness:
  "bindingDialogueVisible demoAwaitingMoved
   \<and> list_all (\<lambda>device. map_of (deviceAxisTestValues demoAwaitingMoved) device \<noteq> None)
        (dataNPList demoAwaitingMoved)
   \<and> awaited_axes demoAwaitingMoved = [(pad, ''left_x'', 9 / 10), (pad, ''left_y'', 8 / 10)]
   \<and> find (moved demoAwaitingMoved) (awaited_axes demoAwaitingMoved) = Some (pad, ''left_y'', 8 / 10)
   \<and> update demoAwaitingMoved =
       keyRelease ''Axis.left_y''
         (keyInterception (Some ''gamepad'') ''Axis.left_y'' (8 / 10) demoAwaitingMoved)"
proof -
  have v: "bindingDialogueVisible demoAwaitingMoved" by code_simp
  have l: "list_all (\<lambda>device. map_of (deviceAxisTestValues demoAwaitingMoved) device \<noteq> None)
        (dataNPList demoAwaitingMoved)" by code_simp
  have a: "awaited_axes demoAwaitingMoved = [(pad, ''left_x'', 9 / 10), (pad, ''left_y'', 8 / 10)]"
    by code_simp
  have f: "find (moved demoAwaitingMoved) (awaited_axes demoAwaitingMoved)
      = Some (pad, ''left_y'', 8 / 10)" by code_simp
  have g: "getDeviceTypeString (str_device_class (device_class pad)) = ''gamepad''" by code_simp
  have x: "str_axis ''left_y'' = ''Axis.left_y''" by code_simp
  from l have l': "\<forall>device \<in> set (dataNPList demoAwaitingMoved).
      map_of (deviceAxisTestValues demoAwaitingMoved) device \<noteq> None"
    by (simp add: list_all_iff)
  from update_awaiting_first_moved_axis [OF v l'] v l a f g x
  show ?thesis by simp
qed

text \<open>C8 as stated fails: an axis held beyond 0.5 that has not left its baseline sample
  synthesizes no interception event.\<close>
theorem update_axis_beyond_half_counterexample:
  "bindingDialogueVisible demoAwaitingHeld
   \<and> awaited_axes demoAwaitingHeld = [(pad, ''left_x'', 9 / 10), (pad, ''left_y'', 0)]
   \<and> \<bar>9 / 10 :: real\<bar> > 0.5
   \<and> scanDevices (dataNPList demoAwaitingHeld) demoAwaitingHeld = Inr None
   \<and> \<not> isl (update demoAwaitingHeld)
   \<and> lastKeyInterception (run update demoAwaitingHeld) = None
   \<and> keyBeingBound (run update demoAwaitingHeld) = Some ''jump''
   \<and> bindingDialogueVisible (run update demoAwaitingHeld)"
  by code_simp

subsection \<open>Saving, then loading\<close>
















end
